theory Spec2Isabelle
  imports Complex_Main "HOL-Library.Stream"
begin

section \<open>Environment: random draws and the clock\<close>

text \<open>
  \<^verbatim>\<open>Math.random()\<close> returns a number in the half-open interval from 0 to 1. The type
  \<open>draw\<close> carries exactly that range; \<open>draw_val\<close> reads the number. Numbers are real
  numbers here (the double rounding of the source is not part of the model).
  \<open>draw_of n d\<close> is the draw \<open>n / d\<close> (and 0 when that is not below 1).
\<close>

typedef draw = "{r::real. 0 \<le> r \<and> r < 1}"
  morphisms draw_val Abs_draw
  by (rule exI[of _ 0]) simp

setup_lifting type_definition_draw

lift_definition draw_of :: "nat \<Rightarrow> nat \<Rightarrow> draw" is
  "\<lambda>n d. if n < d then real n / real d else 0"
  by simp

text \<open>
  The environment of a run: the sequence of results that the successive calls of
  \<^verbatim>\<open>Math.random()\<close> will return, and the clock read by \<^verbatim>\<open>Date.now()\<close> and
  \<^verbatim>\<open>new Date()\<close> (milliseconds). Component states extend this record. The clock is
  set by what drives the component; it stands still while one callback or initialiser
  runs.
\<close>

record env =
  rng :: "draw stream"
  now :: int

definition Math_random :: "'a env_scheme \<Rightarrow> draw \<times> 'a env_scheme" where
  "Math_random w = (shd (rng w), w\<lparr>rng := stl (rng w)\<rparr>)"

text \<open>\<^verbatim>\<open>Math.floor(Math.random() * n)\<close> for a draw already taken.\<close>

definition floor_scaled :: "draw \<Rightarrow> real \<Rightarrow> int" where
  "floor_scaled d n = \<lfloor>draw_val d * n\<rfloor>"

text \<open>\<^verbatim>\<open>xs[Math.floor(Math.random() * xs.length)]\<close> for a draw already taken.\<close>

definition pick :: "'a list \<Rightarrow> draw \<Rightarrow> 'a" where
  "pick xs d = xs ! nat (floor_scaled d (real (length xs)))"

text \<open>
  \<^verbatim>\<open>new Date(x).getTime()\<close> for a number \<open>x\<close>: the time value is truncated towards
  zero to whole milliseconds (for \<open>x\<close> in the range of time values, which the clock and
  the offsets of the source stay in).
\<close>

definition Date_new :: "real \<Rightarrow> int" where
  "Date_new x = (if 0 \<le> x then \<lfloor>x\<rfloor> else \<lceil>x\<rceil>)"

section \<open>The monitoring dashboard: data model\<close>

text \<open>
  Identifiers are template strings
  \<^verbatim>\<open>`exec-${Date.now()}-${Math.random().toString(36).substr(2, 9)}-comp-${i}`\<close>:
  a prefix, the clock, the draw that is printed in base 36, and an optional suffix made
  of a tag and the loop index.
\<close>

datatype ident = Ident string int draw "(string \<times> nat) option"

datatype exec_status = Running | Completed | Stopped | Failed

datatype db_operation = INSERT | SELECT | UPDATE | DELETE

datatype severity = Low | Medium | High

text \<open>Interface \<^verbatim>\<open>AgentExecution\<close>; the field \<^verbatim>\<open>id\<close> is \<open>exec_id\<close>.\<close>

record agent_execution =
  exec_id :: ident
  agentName :: string
  operation :: string
  status :: exec_status
  startTime :: int
  duration :: real
  dataProcessed :: int

text \<open>
  Interface \<^verbatim>\<open>DataOperation\<close>; \<^verbatim>\<open>id\<close> is \<open>op_id\<close>, the field \<^verbatim>\<open>operation\<close> is
  \<open>db_op\<close>.
\<close>

record data_operation =
  op_id :: ident
  table :: string
  db_op :: db_operation
  recordsAffected :: int
  timestamp :: int
  agent :: string

text \<open>Interface \<^verbatim>\<open>MonitoringAlert\<close> and its \<^verbatim>\<open>details\<close> object.\<close>

record alert_details =
  description :: string
  affectedOperations :: "string list"
  confidenceScore :: "int option"
  accuracy :: "int option"
  dataQuality :: "int option"
  recommendation :: string
  impact :: string

record monitoring_alert =
  alert_id :: ident
  alert_agentName :: string
  reason :: string
  alert_timestamp :: int
  alert_severity :: severity
  details :: alert_details

text \<open>
  The state of \<^verbatim>\<open>AdminMonitoringDashboard\<close>: the three \<^verbatim>\<open>useState\<close> ledgers, and the
  callbacks registered with \<^verbatim>\<open>setTimeout\<close> that have not run yet (the time each is
  due, and the agent name its closure holds).
\<close>

record dashboard = env +
  executions :: "agent_execution list"
  dataOps :: "data_operation list"
  alerts :: "monitoring_alert list"
  timers :: "(int \<times> string) list"

section \<open>The alert generator\<close>

text \<open>An element of the array \<^verbatim>\<open>alertTypes\<close> of \<^verbatim>\<open>generateAlert\<close>.\<close>

record alert_type =
  at_reason :: string
  at_description :: string
  at_operations :: "string list"
  at_recommendation :: string
  at_impact :: string
  at_severity :: severity
  at_confidenceScore :: "int option"
  at_dataQuality :: "int option"
  at_accuracy :: "int option"

text \<open>
  The array literal draws the three metrics in the order of its elements:
  \<open>c\<close> for element 0, \<open>q\<close> for element 1, \<open>a\<close> for element 2.
\<close>

definition alertTypes :: "draw \<Rightarrow> draw \<Rightarrow> draw \<Rightarrow> alert_type list" where
  "alertTypes c q a =
    [ \<lparr> at_reason = ''Low confidence score detected'',
        at_description = ''AI model predictions showing reduced confidence levels below acceptable threshold'',
        at_operations = [''Prediction Generation'', ''Model Inference'', ''Data Classification''],
        at_recommendation = ''Review training data quality and consider model retraining'',
        at_impact = ''Reduced prediction accuracy may affect business decisions'',
        at_severity = Medium,
        at_confidenceScore = Some (floor_scaled c 30 + 45),
        at_dataQuality = None, at_accuracy = None \<rparr>,
      \<lparr> at_reason = ''Data quality degradation'',
        at_description = ''Input data quality metrics have fallen below monitoring thresholds'',
        at_operations = [''Data Ingestion'', ''Feature Engineering'', ''Data Validation''],
        at_recommendation = ''Investigate data sources and implement data quality checks'',
        at_impact = ''Poor data quality may lead to unreliable AI predictions'',
        at_severity = High,
        at_confidenceScore = None,
        at_dataQuality = Some (floor_scaled q 25 + 60), at_accuracy = None \<rparr>,
      \<lparr> at_reason = ''Model accuracy drift detected'',
        at_description = ''Significant deviation from baseline accuracy metrics observed'',
        at_operations = [''Model Evaluation'', ''Performance Monitoring'', ''Prediction Validation''],
        at_recommendation = ''Analyze recent data patterns and consider model recalibration'',
        at_impact = ''Declining accuracy affects reliability of automated decisions'',
        at_severity = High,
        at_confidenceScore = None,
        at_dataQuality = None, at_accuracy = Some (floor_scaled a 15 + 75) \<rparr>,
      \<lparr> at_reason = ''Anomalous prediction patterns'',
        at_description = ''Unusual clustering or distribution of model predictions detected'',
        at_operations = [''Anomaly Detection'', ''Pattern Analysis'', ''Statistical Monitoring''],
        at_recommendation = ''Review input data for unexpected changes or patterns'',
        at_impact = ''May indicate data shift or concept drift affecting performance'',
        at_severity = Medium,
        at_confidenceScore = None, at_dataQuality = None, at_accuracy = None \<rparr>,
      \<lparr> at_reason = ''Feature importance shift'',
        at_description = ''Significant changes in feature importance rankings detected'',
        at_operations = [''Feature Analysis'', ''Model Interpretation'', ''Importance Tracking''],
        at_recommendation = ''Investigate underlying data changes and validate feature relevance'',
        at_impact = ''May indicate concept drift or data distribution changes'',
        at_severity = Low,
        at_confidenceScore = None, at_dataQuality = None, at_accuracy = None \<rparr>,
      \<lparr> at_reason = ''Prediction latency spike'',
        at_description = ''Model inference time has exceeded performance thresholds'',
        at_operations = [''Inference Pipeline'', ''Performance Monitoring'', ''Resource Allocation''],
        at_recommendation = ''Optimize model architecture or increase computational resources'',
        at_impact = ''Delayed predictions may affect real-time decision making'',
        at_severity = Medium,
        at_confidenceScore = None, at_dataQuality = None, at_accuracy = None \<rparr> ]"

text \<open>
  The index into \<^verbatim>\<open>alertTypes\<close>: \<open>s\<close> is the draw compared with 0.7, and \<open>k\<close> the
  draw of \<^verbatim>\<open>Math.floor(Math.random() * (alertTypes.length - 1)) + 1\<close>, which the
  source takes only when the first comparison fails. In \<open>generateAlert\<close> below, no draw
  is taken for \<open>k\<close> when the comparison succeeds, and \<open>k\<close> is then not used.
\<close>

definition alert_index :: "draw \<Rightarrow> draw \<Rightarrow> nat" where
  "alert_index s k = (if draw_val s < 7 / 10 then 0 else nat (floor_scaled k (6 - 1) + 1))"

definition alert_of_type :: "string \<Rightarrow> alert_type \<Rightarrow> ident \<Rightarrow> int \<Rightarrow> monitoring_alert" where
  "alert_of_type name t i ts =
     \<lparr> alert_id = i, alert_agentName = name, reason = at_reason t, alert_timestamp = ts,
       alert_severity = at_severity t,
       details = \<lparr> description = at_description t, affectedOperations = at_operations t,
                   confidenceScore = at_confidenceScore t, accuracy = at_accuracy t,
                   dataQuality = at_dataQuality t, recommendation = at_recommendation t,
                   impact = at_impact t \<rparr> \<rparr>"

definition generateAlert :: "string \<Rightarrow> 'a env_scheme \<Rightarrow> monitoring_alert \<times> 'a env_scheme" where
  "generateAlert name w0 =
     (let (c, w1) = Math_random w0;
          (q, w2) = Math_random w1;
          (a, w3) = Math_random w2;
          (s, w4) = Math_random w3;
          (k, w5) = (if draw_val s < 7 / 10 then (s, w4) else Math_random w4);
          alertType = alertTypes c q a ! alert_index s k;
          (r, w6) = Math_random w5
      in (alert_of_type name alertType (Ident ''alert'' (now w6) r None) (now w6), w6))"

section \<open>The scheduler's generators\<close>

definition agentNames :: "string list" where
  "agentNames =
    [''InventoryAgent'', ''PricingAgent'', ''CustomerServiceAgent'', ''RecommendationAgent'',
     ''DataAnalysisAgent'', ''MarketingAgent'', ''FinancialAnalystAgent'', ''SEOAgent'',
     ''SupplyChainAgent'']"

definition operations :: "string list" where
  "operations =
    [''Analyzing inventory levels'', ''Processing customer data'', ''Optimizing pricing strategy'',
     ''Generating recommendations'', ''Updating product catalog'', ''Processing orders'',
     ''Analyzing market trends'', ''Optimizing supply chain'', ''Managing customer queries'',
     ''Forecasting demand'', ''Calculating ROI'', ''SEO optimization'']"

definition tables :: "string list" where
  "tables = [''products'', ''orders'', ''customers'', ''inventory'', ''analytics'', ''pricing'',
     ''recommendations'']"

definition generateExecution :: "'a env_scheme \<Rightarrow> agent_execution \<times> 'a env_scheme" where
  "generateExecution w0 =
     (let (d1, w1) = Math_random w0;
          (d2, w2) = Math_random w1;
          (d3, w3) = Math_random w2;
          (d4, w4) = Math_random w3
      in (\<lparr> exec_id = Ident ''exec'' (now w4) d3 None,
            agentName = pick agentNames d1,
            operation = pick operations d2,
            status = Running,
            startTime = now w4,
            duration = 0,
            dataProcessed = floor_scaled d4 50000 + 10000 \<rparr>, w4))"

text \<open>
  \<^verbatim>\<open>rand < 0.9 ? 'SELECT' : (rand < 0.95 ? 'INSERT' : 'UPDATE')\<close>
\<close>

definition operation_of_rand :: "draw \<Rightarrow> db_operation" where
  "operation_of_rand rand =
     (if draw_val rand < 9 / 10 then SELECT
      else if draw_val rand < 95 / 100 then INSERT else UPDATE)"

definition generateDataOperation :: "string \<Rightarrow> 'a env_scheme \<Rightarrow> data_operation \<times> 'a env_scheme" where
  "generateDataOperation ag w0 =
     (let (d1, w1) = Math_random w0;
          (rand, w2) = Math_random w1;
          (d3, w3) = Math_random w2;
          (d4, w4) = Math_random w3
      in (\<lparr> op_id = Ident ''data'' (now w4) d3 None,
            table = pick tables d1,
            db_op = operation_of_rand rand,
            recordsAffected = floor_scaled d4 25000 + 5000,
            timestamp = now w4,
            agent = ag \<rparr>, w4))"

section \<open>The tick of the scheduler\<close>

text \<open>
  The three state updaters that insert into a ledger:
  \<^verbatim>\<open>[newExecution, ...prev.slice(0, 49)]\<close>, \<^verbatim>\<open>[dataOp, ...prevOps.slice(0, 99)]\<close>,
  \<^verbatim>\<open>[alert, ...prevAlerts.slice(0, 14)]\<close>.
\<close>

definition insert_execution :: "agent_execution \<Rightarrow> agent_execution list \<Rightarrow> agent_execution list" where
  "insert_execution newExecution prev = newExecution # take 49 prev"

definition insert_dataOp :: "data_operation \<Rightarrow> data_operation list \<Rightarrow> data_operation list" where
  "insert_dataOp dataOp prevOps = dataOp # take 99 prevOps"

definition insert_alert :: "monitoring_alert \<Rightarrow> monitoring_alert list \<Rightarrow> monitoring_alert list" where
  "insert_alert alert prevAlerts = alert # take 14 prevAlerts"

text \<open>
  The first \<^verbatim>\<open>setExecutions\<close> of the interval callback. The condition
  \<^verbatim>\<open>runningCount === 0 || (runningCount < 3 && Math.random() < 0.4)\<close> draws only when
  the count is 1 or 2.
\<close>

definition runningCount :: "agent_execution list \<Rightarrow> nat" where
  "runningCount prev = length (filter (\<lambda>e. status e = Running) prev)"

definition add_execution :: "dashboard \<Rightarrow> dashboard" where
  "add_execution w0 =
     (let (newExecution, w1) = generateExecution w0
      in w1\<lparr>executions := insert_execution newExecution (executions w1)\<rparr>)"

definition spawn :: "dashboard \<Rightarrow> dashboard" where
  "spawn w0 =
     (let n = runningCount (executions w0);
          (go, w1) = (if n = 0 then (True, w0)
                      else if n < 3 then (let (d, w) = Math_random w0 in (draw_val d < 4 / 10, w))
                      else (False, w0))
      in if go then add_execution w1 else w1)"

text \<open>
  The callback of \<^verbatim>\<open>prev.map\<close> in the second \<^verbatim>\<open>setExecutions\<close>, for one execution.
  Its calls of \<^verbatim>\<open>setDataOps\<close>, \<^verbatim>\<open>setAlerts\<close> and \<^verbatim>\<open>setTimeout\<close> act on the state that is
  passed along; the updated execution is returned.
\<close>

definition emit_dataOp :: "string \<Rightarrow> dashboard \<Rightarrow> dashboard" where
  "emit_dataOp ag w0 =
     (let (dataOp, w1) = generateDataOperation ag w0
      in w1\<lparr>dataOps := insert_dataOp dataOp (dataOps w1)\<rparr>)"

definition emit_alert :: "string \<Rightarrow> dashboard \<Rightarrow> dashboard" where
  "emit_alert ag w0 =
     (let (alert, w1) = generateAlert ag w0
      in w1\<lparr>alerts := insert_alert alert (alerts w1)\<rparr>)"

text \<open>\<^verbatim>\<open>for (let i = 0; i < numOps; i++) setTimeout(..., i * 200)\<close>\<close>

definition schedule_final_ops :: "string \<Rightarrow> nat \<Rightarrow> dashboard \<Rightarrow> dashboard" where
  "schedule_final_ops ag numOps w =
     w\<lparr>timers := timers w @ map (\<lambda>i. (now w + int i * 200, ag)) [0..<numOps]\<rparr>"

text \<open>The part of the callback before the forced-stop check.\<close>

definition work_step :: "agent_execution \<Rightarrow> dashboard \<Rightarrow> dashboard" where
  "work_step exec w0 =
     (let (d, w1) = Math_random w0
      in if draw_val d < 3 / 10 then emit_dataOp (agentName exec) w1 else w1)"

text \<open>The forced-stop check, and after it the completion check.\<close>

definition stop_or_complete :: "agent_execution \<Rightarrow> real \<Rightarrow> dashboard \<Rightarrow> agent_execution \<times> dashboard" where
  "stop_or_complete exec newDuration w0 =
     (let (d2, w1) = Math_random w0
      in if draw_val d2 < 2 / 100
         then (exec\<lparr>status := Stopped, duration := newDuration\<rparr>, emit_alert (agentName exec) w1)
         else (let (d3, w2) = Math_random w1
               in if newDuration > 3 + draw_val d3 * 12
                  then (let (d4, w3) = Math_random w2;
                            numOps = nat (floor_scaled d4 2 + 1)
                        in (exec\<lparr>status := Completed, duration := newDuration\<rparr>,
                            schedule_final_ops (agentName exec) numOps w3))
                  else (exec\<lparr>duration := newDuration\<rparr>, w2)))"

definition update_execution :: "agent_execution \<Rightarrow> dashboard \<Rightarrow> agent_execution \<times> dashboard" where
  "update_execution exec w =
     (if status exec = Running
      then stop_or_complete exec (duration exec + 2) (work_step exec w)
      else (exec, w))"

text \<open>\<^verbatim>\<open>prev.map(...)\<close>: the callback runs on the elements from first to last.\<close>

fun update_all :: "agent_execution list \<Rightarrow> dashboard \<Rightarrow> agent_execution list \<times> dashboard" where
  "update_all [] w = ([], w)"
| "update_all (exec # rest) w =
     (let (exec', w1) = update_execution exec w;
          (rest', w2) = update_all rest w1
      in (exec' # rest', w2))"

definition advance :: "dashboard \<Rightarrow> dashboard" where
  "advance w = (let (es, w1) = update_all (executions w) w in w1\<lparr>executions := es\<rparr>)"

text \<open>
  The interval callback: both \<^verbatim>\<open>setExecutions\<close> updaters, in order. Every updater
  passed to a state setter runs once, and the updaters of one state run in the order in
  which they were passed; the clock does not move while the callback runs.
\<close>

definition tick :: "dashboard \<Rightarrow> dashboard" where
  "tick w = advance (spawn w)"

text \<open>
  A callback of \<^verbatim>\<open>setTimeout\<close> registered at completion runs: it generates one data
  operation for its agent and inserts it.
\<close>

definition fire_timer :: "nat \<Rightarrow> dashboard \<Rightarrow> dashboard" where
  "fire_timer k w =
     (if k < length (timers w)
      then emit_dataOp (snd (timers w ! k)) (w\<lparr>timers := take k (timers w) @ drop (Suc k) (timers w)\<rparr>)
      else w)"

text \<open>
  What happens to a mounted dashboard: the interval fires, or a pending timeout fires,
  each at some clock time.
\<close>

datatype event = Tick int | Timeout nat int

fun step :: "dashboard \<Rightarrow> event \<Rightarrow> dashboard" where
  "step w (Tick t) = tick (w\<lparr>now := t\<rparr>)"
| "step w (Timeout k t) = fire_timer k (w\<lparr>now := t\<rparr>)"

definition run :: "dashboard \<Rightarrow> event list \<Rightarrow> dashboard" where
  "run w evs = foldl step w evs"

section \<open>The initial state of the dashboard\<close>

text \<open>
  The initialisers of the three \<^verbatim>\<open>useState\<close> calls fill their arrays with loops of the
  form \<^verbatim>\<open>for (let i = 0; i < lo + Math.floor(Math.random() * width); i++) { ... push ... }\<close>.
  The condition is evaluated, with a new draw, before every iteration, the last failing
  one included. \<open>body i\<close> computes the element pushed in iteration \<open>i\<close>.
\<close>

lemma floor_scaled_le: "floor_scaled d (real width) \<le> int width"
proof -
  have "0 \<le> draw_val d" "draw_val d < 1"
    using draw_val [of d] by simp_all
  then have "draw_val d * real width \<le> real width"
    by (simp add: mult_left_le_one_le)
  then have "\<lfloor>draw_val d * real width\<rfloor> \<le> \<lfloor>real width\<rfloor>"
    by (rule floor_mono)
  then show ?thesis
    by (simp add: floor_scaled_def)
qed

function seed_loop ::
  "nat \<Rightarrow> nat \<Rightarrow> (nat \<Rightarrow> 'a env_scheme \<Rightarrow> 'b \<times> 'a env_scheme) \<Rightarrow> nat \<Rightarrow> 'b list \<Rightarrow> 'a env_scheme
     \<Rightarrow> 'b list \<times> 'a env_scheme" where
  "seed_loop lo width body i acc w =
     (if int i < int lo + floor_scaled (fst (Math_random w)) (real width)
      then seed_loop lo width body (Suc i)
             (acc @ [fst (body i (snd (Math_random w)))])
             (snd (body i (snd (Math_random w))))
      else (acc, snd (Math_random w)))"
  by pat_completeness auto
termination
proof (relation "measure (\<lambda>(lo, width, body, i, acc, w). (lo + width) - i)")
  show "wf (measure (\<lambda>(lo, width, body, i, acc, w). (lo + width) - i))"
    by simp
next
  fix lo width :: nat and body :: "nat \<Rightarrow> 'a env_scheme \<Rightarrow> 'b \<times> 'a env_scheme"
    and i :: nat and acc :: "'b list" and w :: "'a env_scheme"
  assume "int i < int lo + floor_scaled (fst (Math_random w)) (real width)"
  moreover have "floor_scaled (fst (Math_random w)) (real width) \<le> int width"
    by (rule floor_scaled_le)
  ultimately have "i < lo + width"
    by linarith
  then show "((lo, width, body, Suc i, acc @ [fst (body i (snd (Math_random w)))],
               snd (body i (snd (Math_random w)))),
              (lo, width, body, i, acc, w))
             \<in> measure (\<lambda>(lo, width, body, i, acc, w). (lo + width) - i)"
    by simp
qed

declare seed_loop.simps [simp del]

text \<open>The running executions of the initial state (1 to 3).\<close>

definition seed_running_entry :: "nat \<Rightarrow> 'a env_scheme \<Rightarrow> agent_execution \<times> 'a env_scheme" where
  "seed_running_entry i w0 =
     (let (d1, w1) = Math_random w0;
          (d2, w2) = Math_random w1;
          (d3, w3) = Math_random w2;
          st = Date_new (real_of_int (now w3) - draw_val d3 * 15000);
          dur = (real_of_int (now w3) - real_of_int st) / 1000;
          (d4, w4) = Math_random w3;
          (d5, w5) = Math_random w4
      in (\<lparr> exec_id = Ident ''exec'' (now w5) d4 (Some ([], i)),
            agentName = pick agentNames d1,
            operation = pick operations d2,
            status = Running,
            startTime = st,
            duration = dur,
            dataProcessed = floor_scaled d5 50000 + 10000 \<rparr>, w5))"

text \<open>The completed executions of the initial state (15 to 20).\<close>

definition seed_completed_entry :: "nat \<Rightarrow> 'a env_scheme \<Rightarrow> agent_execution \<times> 'a env_scheme" where
  "seed_completed_entry i w0 =
     (let (d1, w1) = Math_random w0;
          (d2, w2) = Math_random w1;
          (d3, w3) = Math_random w2;
          completedTime = Date_new (real_of_int (now w3) - draw_val d3 * 1800000);
          (d4, w4) = Math_random w3;
          dur = 3 + draw_val d4 * 12;
          (d5, w5) = Math_random w4;
          (d6, w6) = Math_random w5
      in (\<lparr> exec_id = Ident ''exec'' (now w6) d5 (Some (''comp'', i)),
            agentName = pick agentNames d1,
            operation = pick operations d2,
            status = Completed,
            startTime = Date_new (real_of_int completedTime - dur * 1000),
            duration = dur,
            dataProcessed = floor_scaled d6 50000 + 10000 \<rparr>, w6))"

text \<open>The stopped executions of the initial state (2 to 4).\<close>

definition seed_stopped_entry :: "nat \<Rightarrow> 'a env_scheme \<Rightarrow> agent_execution \<times> 'a env_scheme" where
  "seed_stopped_entry i w0 =
     (let (d1, w1) = Math_random w0;
          (d2, w2) = Math_random w1;
          (d3, w3) = Math_random w2;
          stoppedTime = Date_new (real_of_int (now w3) - draw_val d3 * 900000);
          (d4, w4) = Math_random w3;
          dur = 1 + draw_val d4 * 3;
          (d5, w5) = Math_random w4;
          (d6, w6) = Math_random w5
      in (\<lparr> exec_id = Ident ''exec'' (now w6) d5 (Some (''stop'', i)),
            agentName = pick agentNames d1,
            operation = pick operations d2,
            status = Stopped,
            startTime = Date_new (real_of_int stoppedTime - dur * 1000),
            duration = dur,
            dataProcessed = floor_scaled d6 30000 + 5000 \<rparr>, w6))"

text \<open>
  \<^verbatim>\<open>initialExecutions.sort((a, b) => b.startTime.getTime() - a.startTime.getTime())\<close>:
  a stable sort, latest start first.
\<close>

definition seed_executions :: "'a env_scheme \<Rightarrow> agent_execution list \<times> 'a env_scheme" where
  "seed_executions w0 =
     (let (r, w1) = seed_loop 1 3 seed_running_entry 0 [] w0;
          (c, w2) = seed_loop 15 6 seed_completed_entry 0 r w1;
          (s, w3) = seed_loop 2 3 seed_stopped_entry 0 c w2
      in (sort_key (\<lambda>e. - startTime e) s, w3))"

text \<open>The 20 to 30 data operations of the initial state.\<close>

definition seed_dataOp_entry :: "nat \<Rightarrow> 'a env_scheme \<Rightarrow> data_operation \<times> 'a env_scheme" where
  "seed_dataOp_entry i w0 =
     (let (d1, w1) = Math_random w0;
          (d2, w2) = Math_random w1;
          (rand, w3) = Math_random w2;
          (d4, w4) = Math_random w3;
          (d5, w5) = Math_random w4;
          (d6, w6) = Math_random w5
      in (\<lparr> op_id = Ident ''data'' (now w6) d5 (Some ([], i)),
            table = pick tables d2,
            db_op = operation_of_rand rand,
            recordsAffected = floor_scaled d6 25000 + 5000,
            timestamp = Date_new (real_of_int (now w6) - draw_val d4 * 1800000),
            agent = pick agentNames d1 \<rparr>, w6))"

definition seed_dataOps :: "'a env_scheme \<Rightarrow> data_operation list \<times> 'a env_scheme" where
  "seed_dataOps w0 =
     (let (ops, w1) = seed_loop 20 11 seed_dataOp_entry 0 [] w0
      in (sort_key (\<lambda>x. - timestamp x) ops, w1))"

text \<open>
  The 1 to 3 alerts of the initial state: the result of \<^verbatim>\<open>generateAlert\<close> with its
  timestamp and id overwritten.
\<close>

definition seed_alert_entry :: "nat \<Rightarrow> 'a env_scheme \<Rightarrow> monitoring_alert \<times> 'a env_scheme" where
  "seed_alert_entry i w0 =
     (let (d1, w1) = Math_random w0;
          (d2, w2) = Math_random w1;
          (alert, w3) = generateAlert (pick agentNames d1) w2;
          (d3, w4) = Math_random w3
      in (alert\<lparr> alert_timestamp := Date_new (real_of_int (now w4) - draw_val d2 * 900000),
                 alert_id := Ident ''alert'' (now w4) d3 (Some ([], i)) \<rparr>, w4))"

definition seed_alerts :: "'a env_scheme \<Rightarrow> monitoring_alert list \<times> 'a env_scheme" where
  "seed_alerts w0 =
     (let (als, w1) = seed_loop 1 3 seed_alert_entry 0 [] w0
      in (sort_key (\<lambda>x. - alert_timestamp x) als, w1))"

text \<open>
  The dashboard as first rendered, for the draws \<open>g\<close> and the clock \<open>t\<close>: the
  initialisers run in the order of the \<^verbatim>\<open>useState\<close> calls, and no timeout is pending.
\<close>

definition initial_dashboard :: "draw stream \<Rightarrow> int \<Rightarrow> dashboard" where
  "initial_dashboard g t =
     (let w0 = \<lparr> rng = g, now = t, executions = [], dataOps = [], alerts = [], timers = [] \<rparr>;
          (es, w1) = seed_executions w0;
          (ops, w2) = seed_dataOps w1;
          (als, w3) = seed_alerts w2
      in w3\<lparr>executions := es, dataOps := ops, alerts := als\<rparr>)"

section \<open>The conversational agent: data model\<close>

text \<open>The prop \<^verbatim>\<open>agentType\<close> of \<^verbatim>\<open>AgentChat\<close>.\<close>

datatype agent_type =
  CustomerServiceAgent | RecommendationAgent | PricingAgent | InventoryAgent | DataAnalysisAgent |
  MarketingAgent | FinancialAnalystAgent | SEOAgent | SupplyChainAgent

text \<open>
  The result of \<^verbatim>\<open>x.toFixed(1)\<close>, or the literal \<^verbatim>\<open>'3.2'\<close> that replaces a missing
  number.
\<close>

datatype avg_text = ToFixed1 real | Default_3_2

text \<open>
  The text of a message. The long literal texts of the source contain characters outside
  ASCII and are not reproduced: a text is identified by the place it is taken from. These
  are the text typed by the user, \<^verbatim>\<open>welcomeMessages[agentType]\<close>,
  \<^verbatim>\<open>responses[type][key].content\<close>, the template of \<^verbatim>\<open>handlePricingOptimization\<close>
  filled with \<^verbatim>\<open>changesCount\<close> and \<^verbatim>\<open>avgIncrease\<close>, and the text of its \<^verbatim>\<open>catch\<close>
  block (which says that automatic price updates cannot be applied at the moment).
\<close>

datatype content =
  Typed string
  | Welcome agent_type
  | Template agent_type string
  | Optimization_complete int avg_text
  | Optimization_unavailable

text \<open>
  The metadata object of a response. The entries of \<^verbatim>\<open>responses\<close> have the first three
  fields; \<^verbatim>\<open>handlePricingOptimization\<close> adds the others.
\<close>

record metadata =
  confidence :: real
  category :: string
  actions :: "string list"
  optimization_applied :: "bool option"
  products_updated :: "int option"
  average_increase :: "avg_text option"
  real_changes :: "bool option"

type_synonym response = "content \<times> metadata"

definition meta :: "real \<Rightarrow> string \<Rightarrow> string list \<Rightarrow> metadata" where
  "meta c cat acts =
     \<lparr> confidence = c, category = cat, actions = acts, optimization_applied = None,
       products_updated = None, average_increase = None, real_changes = None \<rparr>"

text \<open>Interface \<^verbatim>\<open>Message\<close>; its id is \<^verbatim>\<open>'welcome'\<close> or a clock value printed.\<close>

datatype msg_ident = Welcome_id | Stamp int

datatype sender = User | Agent

datatype msg_status = Msg_sending | Msg_sent | Msg_processing | Msg_completed | Msg_error

record message =
  msg_id :: msg_ident
  msg_type :: sender
  msg_content :: content
  msg_timestamp :: int
  msg_agentName :: "string option"
  msg_status :: "msg_status option"
  msg_metadata :: "metadata option"

text \<open>
  What the component does to the outside: the call \<^verbatim>\<open>apiService.optimizePricing()\<close>,
  \<^verbatim>\<open>queryClient.invalidateQueries({ queryKey: [key] })\<close>, and \<^verbatim>\<open>console.error\<close>.
\<close>

datatype effect = Optimize_pricing_call | Invalidate_queries string | Console_error

text \<open>
  How the awaited call \<^verbatim>\<open>apiService.optimizePricing()\<close> ends: the promise rejects, or
  it resolves with a result. The field \<^verbatim>\<open>data\<close> of the result may be missing; its
  \<^verbatim>\<open>total_products_updated\<close> is an integer or missing; its
  \<^verbatim>\<open>average_increase_percent\<close> is missing (\<^verbatim>\<open>undefined\<close> or \<^verbatim>\<open>null\<close>), a number, or
  a value of another type, which has no method \<^verbatim>\<open>toFixed\<close>.
\<close>

datatype number_field = Absent | Number real | Non_number

record optimization_data =
  total_products_updated :: "int option"
  average_increase_percent :: number_field

datatype pricing_outcome = Rejected | Resolved "optimization_data option"

text \<open>
  The callbacks that \<^verbatim>\<open>handleSendMessage\<close> registers with \<^verbatim>\<open>setTimeout\<close>; each holds
  \<^verbatim>\<open>currentMessage\<close>.
\<close>

datatype callback =
  Optimization_reply string
  | Market_search_done string
  | Market_reply string
  | Regular_reply string

text \<open>
  The state of a mounted \<^verbatim>\<open>AgentChat\<close>: its props, its four \<^verbatim>\<open>useState\<close> values, the
  registered timeouts that have not run (delay in milliseconds and callback), and the
  log of the effects so far.
\<close>

record chat = env +
  chat_agentName :: string
  agentType :: agent_type
  messages :: "message list"
  inputMessage :: string
  isTyping :: bool
  typingMessage :: string
  pending :: "(real \<times> callback) list"
  effects :: "effect list"

section \<open>The conversational agent: strings\<close>

text \<open>
  \<^verbatim>\<open>toLowerCase\<close>, \<^verbatim>\<open>includes\<close> and \<^verbatim>\<open>trim\<close> on strings of ASCII characters.
\<close>

definition lower_char :: "char \<Rightarrow> char" where
  "lower_char c =
     (if 65 \<le> (of_char c :: nat) \<and> (of_char c :: nat) \<le> 90
      then char_of (of_char c + 32 :: nat) else c)"

definition toLowerCase :: "string \<Rightarrow> string" where
  "toLowerCase s = map lower_char s"

primrec includes_str :: "string \<Rightarrow> string \<Rightarrow> bool" where
  "includes_str [] sub = (sub = [])"
| "includes_str (c # s) sub = (take (length sub) (c # s) = sub \<or> includes_str s sub)"

definition is_space :: "char \<Rightarrow> bool" where
  "is_space c \<longleftrightarrow> (of_char c :: nat) \<in> {9, 10, 11, 12, 13, 32}"

definition trim :: "string \<Rightarrow> string" where
  "trim s = rev (dropWhile is_space (rev (dropWhile is_space s)))"

section \<open>The conversational agent: responses\<close>

text \<open>
  The object \<^verbatim>\<open>responses\<close> of \<^verbatim>\<open>generateAgentResponse\<close>, each agent type with its
  entries in the order in which \<^verbatim>\<open>Object.entries\<close> lists them: keys that are integers
  first, in ascending order, then the other keys as written.
\<close>

fun responses :: "agent_type \<Rightarrow> (string \<times> response) list" where
  "responses CustomerServiceAgent =
    [
      (''12345'',
       (Template CustomerServiceAgent ''12345'',
        meta (98 / 100) ''order_status_detailed''
          [''order_lookup'', ''priority_escalation'', ''compensation_applied''])),
      (''54321'',
       (Template CustomerServiceAgent ''54321'',
        meta (99 / 100) ''order_status_detailed''
          [''issue_resolution'', ''upgrade_applied'', ''compensation_added''])),
      (''67890'',
       (Template CustomerServiceAgent ''67890'',
        meta (97 / 100) ''order_status_detailed''
          [''live_tracking'', ''delivery_notification'', ''signature_alert''])),
      (''order'',
       (Template CustomerServiceAgent ''order'',
        meta (95 / 100) ''order_inquiry''
          [''check_order_status'', ''provide_tracking''])),
      (''return'',
       (Template CustomerServiceAgent ''return'',
        meta (94 / 100) ''return_request''
          [''instant_label_generation'', ''fast_refund'', ''personalized_recommendations''])),
      (''shipping'',
       (Template CustomerServiceAgent ''shipping'',
        meta (91 / 100) ''shipping_inquiry''
          [''real_time_tracking'', ''address_updates'', ''carrier_coordination''])),
      (''default'',
       (Template CustomerServiceAgent ''default'',
        meta (75 / 100) ''general''
          [''intelligent_routing'', ''context_preservation'', ''vip_escalation''])) ]"
| "responses RecommendationAgent =
    [
      (''recommend'',
       (Template RecommendationAgent ''recommend'',
        meta (91 / 100) ''product_recommendation''
          [''analyze_trends'', ''personalize_suggestions''])),
      (''trending'',
       (Template RecommendationAgent ''trending'',
        meta (89 / 100) ''trending_analysis''
          [''trend_analysis'', ''sales_data_review''])),
      (''customer'',
       (Template RecommendationAgent ''customer'',
        meta (87 / 100) ''customer_analysis''
          [''analyze_demographics'', ''identify_cross_sell''])),
      (''default'',
       (Template RecommendationAgent ''default'',
        meta (75 / 100) ''general_recommendation''
          [''data_analysis'', ''pattern_recognition''])) ]"
| "responses PricingAgent =
    [
      (''price'',
       (Template PricingAgent ''price'',
        meta (93 / 100) ''price_optimization''
          [''market_analysis'', ''competitor_tracking'', ''demand_forecasting''])),
      (''market'',
       (Template PricingAgent ''market'',
        meta (94 / 100) ''market_analysis''
          [''web_research'', ''competitor_analysis'', ''trend_monitoring'', ''price_optimization''])),
      (''profit'',
       (Template PricingAgent ''profit'',
        meta (88 / 100) ''profit_optimization''
          [''margin_analysis'', ''elasticity_calculation''])),
      (''default'',
       (Template PricingAgent ''default'',
        meta (80 / 100) ''pricing_strategy''
          [''algorithm_analysis'', ''strategy_development''])) ]"
| "responses InventoryAgent =
    [
      (''stock'',
       (Template InventoryAgent ''stock'',
        meta (96 / 100) ''stock_monitoring''
          [''stock_check'', ''reorder_trigger'', ''demand_forecast''])),
      (''demand'',
       (Template InventoryAgent ''demand'',
        meta (92 / 100) ''demand_forecasting''
          [''trend_analysis'', ''seasonal_adjustment'', ''safety_stock_optimization''])),
      (''reorder'',
       (Template InventoryAgent ''reorder'',
        meta (89 / 100) ''automated_reordering''
          [''eoq_calculation'', ''supplier_optimization'', ''lead_time_analysis''])),
      (''default'',
       (Template InventoryAgent ''default'',
        meta (78 / 100) ''inventory_management''
          [''comprehensive_analysis'', ''optimization_strategy''])) ]"
| "responses DataAnalysisAgent =
    [
      (''data'',
       (Template DataAnalysisAgent ''data'',
        meta (91 / 100) ''data_analysis''
          [''trend_analysis'', ''predictive_modeling'', ''anomaly_detection''])),
      (''trend'',
       (Template DataAnalysisAgent ''trend'',
        meta (88 / 100) ''trend_analysis''
          [''seasonal_forecasting'', ''growth_analysis''])),
      (''predict'',
       (Template DataAnalysisAgent ''predict'',
        meta (85 / 100) ''predictive_analytics''
          [''revenue_forecasting'', ''churn_prediction''])),
      (''default'',
       (Template DataAnalysisAgent ''default'',
        meta (78 / 100) ''business_intelligence''
          [''data_mining'', ''insight_generation''])) ]"
| "responses MarketingAgent =
    [
      (''campaign'',
       (Template MarketingAgent ''campaign'',
        meta (92 / 100) ''campaign_management''
          [''campaign_optimization'', ''roi_analysis''])),
      (''optimize'',
       (Template MarketingAgent ''optimize'',
        meta (94 / 100) ''campaign_optimization''
          [''budget_reallocation'', ''performance_optimization'', ''roi_maximization''])),
      (''audience'',
       (Template MarketingAgent ''audience'',
        meta (89 / 100) ''audience_targeting''
          [''segmentation'', ''personalization''])),
      (''marketing'',
       (Template MarketingAgent ''marketing'',
        meta (86 / 100) ''marketing_automation''
          [''automation'', ''optimization''])),
      (''default'',
       (Template MarketingAgent ''default'',
        meta (80 / 100) ''marketing_strategy''
          [''campaign_creation'', ''performance_optimization''])) ]"
| "responses FinancialAnalystAgent =
    [
      (''budget'',
       (Template FinancialAnalystAgent ''budget'',
        meta (88 / 100) ''budget_optimization''
          [''allocation_analysis'', ''roi_optimization''])),
      (''financial'',
       (Template FinancialAnalystAgent ''financial'',
        meta (91 / 100) ''financial_health''
          [''health_assessment'', ''metric_analysis''])),
      (''investment'',
       (Template FinancialAnalystAgent ''investment'',
        meta (84 / 100) ''investment_analysis''
          [''roi_calculation'', ''risk_assessment''])),
      (''default'',
       (Template FinancialAnalystAgent ''default'',
        meta (82 / 100) ''financial_analysis''
          [''comprehensive_analysis'', ''strategic_planning''])) ]"
| "responses SEOAgent =
    [
      (''seo'',
       (Template SEOAgent ''seo'',
        meta (90 / 100) ''seo_performance''
          [''keyword_tracking'', ''ranking_analysis''])),
      (''keyword'',
       (Template SEOAgent ''keyword'',
        meta (87 / 100) ''keyword_research''
          [''opportunity_identification'', ''competition_analysis''])),
      (''content'',
       (Template SEOAgent ''content'',
        meta (85 / 100) ''content_optimization''
          [''content_strategy'', ''page_optimization''])),
      (''default'',
       (Template SEOAgent ''default'',
        meta (83 / 100) ''seo_management''
          [''holistic_optimization'', ''performance_tracking''])) ]"
| "responses SupplyChainAgent =
    [
      (''supply'',
       (Template SupplyChainAgent ''supply'',
        meta (93 / 100) ''supply_management''
          [''supplier_optimization'', ''delivery_tracking''])),
      (''logistics'',
       (Template SupplyChainAgent ''logistics'',
        meta (89 / 100) ''logistics_optimization''
          [''route_optimization'', ''carrier_management''])),
      (''delivery'',
       (Template SupplyChainAgent ''delivery'',
        meta (86 / 100) ''delivery_optimization''
          [''performance_tracking'', ''innovation_testing''])),
      (''default'',
       (Template SupplyChainAgent ''default'',
        meta (81 / 100) ''supply_chain_management''
          [''end_to_end_optimization'', ''performance_monitoring''])) ]"

text \<open>
  \<^verbatim>\<open>generateAgentResponse\<close>: the first entry, other than \<^verbatim>\<open>default\<close>, whose key occurs
  in the lower-cased message; the entry \<^verbatim>\<open>default\<close> when there is none.
\<close>

definition default_response :: "agent_type \<Rightarrow> response" where
  "default_response ty = snd (last (responses ty))"

definition generateAgentResponse :: "string \<Rightarrow> agent_type \<Rightarrow> response" where
  "generateAgentResponse msg ty =
     (let lowerMessage = toLowerCase msg
      in case find (\<lambda>(key, r). key \<noteq> ''default'' \<and> includes_str lowerMessage key) (responses ty) of
           Some (key, r) \<Rightarrow> r
         | None \<Rightarrow> default_response ty)"

text \<open>
  \<^verbatim>\<open>handlePricingOptimization\<close>, as a function of how the awaited call ends: the
  response, and the effects in the order in which they happen. The \<^verbatim>\<open>catch\<close> block
  takes over when the call rejects, and also when \<^verbatim>\<open>toFixed\<close> is called on a value
  that has no such method, which happens after the two invalidations. The dynamic import
  of the module of \<^verbatim>\<open>apiService\<close>, a module that the pages import statically, is taken
  to succeed. The parameters \<^verbatim>\<open>message\<close> and \<^verbatim>\<open>type\<close> are not used by the source.
\<close>

definition optimization_failed :: response where
  "optimization_failed =
     (Optimization_unavailable,
      \<lparr> confidence = 75 / 100, category = ''pricing_analysis'',
        actions = [''web_research'', ''market_analysis'', ''strategic_recommendations''],
        optimization_applied = Some False, products_updated = None, average_increase = None,
        real_changes = None \<rparr>)"

definition optimization_done :: "int \<Rightarrow> avg_text \<Rightarrow> response" where
  "optimization_done changesCount avgIncrease =
     (Optimization_complete changesCount avgIncrease,
      \<lparr> confidence = 96 / 100, category = ''pricing_optimization'',
        actions = [''price_updates'', ''market_analysis'', ''profit_optimization''],
        optimization_applied = Some True, products_updated = Some changesCount,
        average_increase = Some avgIncrease, real_changes = Some True \<rparr>)"

definition handlePricingOptimization ::
    "string \<Rightarrow> agent_type \<Rightarrow> pricing_outcome \<Rightarrow> response \<times> effect list" where
  "handlePricingOptimization msg ty outcome =
     (case outcome of
        Rejected \<Rightarrow> (optimization_failed, [Optimize_pricing_call, Console_error])
      | Resolved optimizationResult \<Rightarrow>
          (let data = (case optimizationResult of
                         None \<Rightarrow> \<lparr> total_products_updated = None, average_increase_percent = Absent \<rparr>
                       | Some d \<Rightarrow> d);
               changesCount = (case total_products_updated data of
                                 None \<Rightarrow> 5
                               | Some n \<Rightarrow> if n = 0 then 5 else n);
               applied = [Optimize_pricing_call, Invalidate_queries ''products'',
                       Invalidate_queries ''featured-products'']
           in case average_increase_percent data of
                Absent \<Rightarrow> (optimization_done changesCount Default_3_2, applied)
              | Number x \<Rightarrow> (optimization_done changesCount (ToFixed1 x), applied)
              | Non_number \<Rightarrow> (optimization_failed, applied @ [Console_error])))"

section \<open>The conversational agent: sending and answering\<close>

definition isPricingMarketQuestion :: "agent_type \<Rightarrow> string \<Rightarrow> bool" where
  "isPricingMarketQuestion ty currentMessage \<longleftrightarrow>
     ty = PricingAgent \<and>
     (includes_str (toLowerCase currentMessage) ''market conditions'' \<or>
      toLowerCase currentMessage = ''how are market conditions affecting pricing?'' \<or>
      (includes_str (toLowerCase currentMessage) ''market'' \<and>
       includes_str (toLowerCase currentMessage) ''affecting'' \<and>
       includes_str (toLowerCase currentMessage) ''pricing''))"

definition isPricingOptimizationQuestion :: "agent_type \<Rightarrow> string \<Rightarrow> bool" where
  "isPricingOptimizationQuestion ty currentMessage \<longleftrightarrow>
     ty = PricingAgent \<and>
     (includes_str (toLowerCase currentMessage) ''optimize'' \<and>
        includes_str (toLowerCase currentMessage) ''pricing'' \<or>
      includes_str (toLowerCase currentMessage) ''can you optimize our pricing strategy'' \<or>
      includes_str (toLowerCase currentMessage) ''pricing strategy'')"

definition set_timeout :: "real \<Rightarrow> callback \<Rightarrow> chat \<Rightarrow> chat" where
  "set_timeout delay cb s = s\<lparr>pending := pending s @ [(delay, cb)]\<rparr>"

text \<open>
  \<^verbatim>\<open>handleSendMessage\<close>, up to the registration of the timeout. It returns at once when
  the trimmed input is empty; it does not read \<^verbatim>\<open>isTyping\<close>.
\<close>

definition handleSendMessage :: "chat \<Rightarrow> chat" where
  "handleSendMessage s =
     (if trim (inputMessage s) = [] then s
      else
        (let userMessage =
               \<lparr> msg_id = Stamp (now s), msg_type = User, msg_content = Typed (inputMessage s),
                 msg_timestamp = now s, msg_agentName = None, msg_status = Some Msg_sent,
                 msg_metadata = None \<rparr>;
             currentMessage = inputMessage s;
             s1 = s\<lparr>messages := messages s @ [userMessage], inputMessage := [], isTyping := True\<rparr>
         in if isPricingOptimizationQuestion (agentType s) currentMessage
            then set_timeout 2000 (Optimization_reply currentMessage)
                   (s1\<lparr>typingMessage := ''Optimizing pricing strategy...''\<rparr>)
            else if isPricingMarketQuestion (agentType s) currentMessage
            then set_timeout 30000 (Market_search_done currentMessage)
                   (s1\<lparr>typingMessage := ''Searching the web...''\<rparr>)
            else (let (d, s2) = Math_random (s1\<lparr>typingMessage := ''Agent is thinking...''\<rparr>)
                  in set_timeout (1500 + draw_val d * 2000) (Regular_reply currentMessage) s2)))"

text \<open>The agent message that a callback appends, and the appending.\<close>

definition agentMessage :: "chat \<Rightarrow> response \<Rightarrow> message" where
  "agentMessage s agentResponse =
     \<lparr> msg_id = Stamp (now s + 1), msg_type = Agent, msg_content = fst agentResponse,
       msg_timestamp = now s, msg_agentName = Some (chat_agentName s),
       msg_status = Some Msg_completed, msg_metadata = Some (snd agentResponse) \<rparr>"

definition reply :: "response \<Rightarrow> chat \<Rightarrow> chat" where
  "reply agentResponse s =
     s\<lparr>messages := messages s @ [agentMessage s agentResponse], isTyping := False\<rparr>"

text \<open>
  A callback runs. \<open>outcome\<close> is how the call to the pricing service ends, should the
  callback make it.
\<close>

fun run_callback :: "callback \<Rightarrow> pricing_outcome \<Rightarrow> chat \<Rightarrow> chat" where
  "run_callback (Optimization_reply currentMessage) outcome s =
     (let (agentResponse, effs) = handlePricingOptimization currentMessage (agentType s) outcome
      in (reply agentResponse (s\<lparr>effects := effects s @ effs\<rparr>))
           \<lparr>typingMessage := ''Agent is thinking...''\<rparr>)"
| "run_callback (Market_search_done currentMessage) outcome s =
     set_timeout 3000 (Market_reply currentMessage) (s\<lparr>typingMessage := ''Agent is thinking...''\<rparr>)"
| "run_callback (Market_reply currentMessage) outcome s =
     (reply (generateAgentResponse currentMessage (agentType s)) s)
       \<lparr>typingMessage := ''Agent is thinking...''\<rparr>"
| "run_callback (Regular_reply currentMessage) outcome s =
     reply (generateAgentResponse currentMessage (agentType s)) s"

text \<open>The registered timeout number \<open>k\<close> fires.\<close>

definition fire_pending :: "nat \<Rightarrow> pricing_outcome \<Rightarrow> chat \<Rightarrow> chat" where
  "fire_pending k outcome s =
     (if k < length (pending s)
      then run_callback (snd (pending s ! k)) outcome
             (s\<lparr>pending := take k (pending s) @ drop (Suc k) (pending s)\<rparr>)
      else s)"

text \<open>
  The controls of the chat. The send button has \<^verbatim>\<open>onClick={handleSendMessage}\<close> and
  \<^verbatim>\<open>disabled={!inputMessage.trim() || isTyping}\<close>; the text input calls
  \<^verbatim>\<open>handleSendMessage\<close> on the key Enter, sets \<^verbatim>\<open>inputMessage\<close> on a change, and has
  \<^verbatim>\<open>disabled={isTyping}\<close>; the quick-action buttons set \<^verbatim>\<open>inputMessage\<close> to a fixed text
  and are never disabled. A disabled control gets no event. \<^verbatim>\<open>handleSendMessage\<close> is
  called from nowhere else.
\<close>

fun quick_actions :: "agent_type \<Rightarrow> string list" where
  "quick_actions CustomerServiceAgent =
     [''I need help with my order status'', ''How do I return an item?'']"
| "quick_actions RecommendationAgent =
     [''What products are trending right now?'', ''Can you recommend products for me?'']"
| "quick_actions PricingAgent =
     [''How are market conditions affecting pricing?'', ''Can you optimize our pricing strategy?'']"
| "quick_actions InventoryAgent =
     [''What'' @ [CHR 0x27] @ ''s our current stock status?'', ''Show me demand forecasting insights'']"
| "quick_actions MarketingAgent =
     [''Optimize our marketing campaigns'', ''Show me campaign performance insights'']"
| "quick_actions _ = []"

datatype control = Send_button | Enter_key | Input_change string | Quick_action nat

fun ui :: "control \<Rightarrow> chat \<Rightarrow> chat" where
  "ui Send_button s = (if trim (inputMessage s) = [] \<or> isTyping s then s else handleSendMessage s)"
| "ui Enter_key s = (if isTyping s then s else handleSendMessage s)"
| "ui (Input_change v) s = (if isTyping s then s else s\<lparr>inputMessage := v\<rparr>)"
| "ui (Quick_action i) s =
     (if i < length (quick_actions (agentType s))
      then s\<lparr>inputMessage := quick_actions (agentType s) ! i\<rparr> else s)"

text \<open>
  The chat as opened: the effect that runs on mount has put the welcome message.
\<close>

definition initial_chat :: "string \<Rightarrow> agent_type \<Rightarrow> draw stream \<Rightarrow> int \<Rightarrow> chat" where
  "initial_chat name ty g t =
     \<lparr> rng = g, now = t, chat_agentName = name, agentType = ty,
       messages = [\<lparr> msg_id = Welcome_id, msg_type = Agent, msg_content = Welcome ty,
                     msg_timestamp = t, msg_agentName = Some name,
                     msg_status = Some Msg_completed, msg_metadata = None \<rparr>],
       inputMessage = [], isTyping = False, typingMessage = ''Agent is thinking...'',
       pending = [], effects = [] \<rparr>"

section \<open>Auxiliary definitions for the properties\<close>

text \<open>The three ledgers are within their capacities.\<close>

definition within_capacity :: "dashboard \<Rightarrow> bool" where
  "within_capacity w \<longleftrightarrow>
     length (executions w) \<le> 50 \<and> length (dataOps w) \<le> 100 \<and> length (alerts w) \<le> 15"

text \<open>The draws that are all \<open>c\<close>.\<close>

definition always :: "draw \<Rightarrow> draw stream" where
  "always c = sconst c"

text \<open>A dashboard with empty ledgers at clock 0, for the draws \<open>g\<close>.\<close>

definition quiet :: "draw stream \<Rightarrow> dashboard" where
  "quiet g = \<lparr> rng = g, now = 0, executions = [], dataOps = [], alerts = [], timers = [] \<rparr>"

text \<open>The field \<^verbatim>\<open>reason\<close> of the six elements of \<^verbatim>\<open>alertTypes\<close>, in order.\<close>

definition alert_reasons :: "string list" where
  "alert_reasons =
     [''Low confidence score detected'', ''Data quality degradation'',
      ''Model accuracy drift detected'', ''Anomalous prediction patterns'',
      ''Feature importance shift'', ''Prediction latency spike'']"

text \<open>A running execution of duration 2, used in the examples.\<close>

definition sample_execution :: agent_execution where
  "sample_execution =
     \<lparr> exec_id = Ident ''exec'' 0 (draw_of 1 2) None, agentName = ''PricingAgent'',
       operation = ''Processing orders'', status = Running, startTime = 0, duration = 2,
       dataProcessed = 10000 \<rparr>"

text \<open>No data operation of the list is a DELETE.\<close>

definition no_delete :: "data_operation list \<Rightarrow> bool" where
  "no_delete ops \<longleftrightarrow> DELETE \<notin> db_op ` set ops"

text \<open>
  The call to the pricing service resolves, and what it resolves with lets the response
  be built: \<^verbatim>\<open>average_increase_percent\<close> is a number or missing.
\<close>

definition resolves_well :: "pricing_outcome \<Rightarrow> bool" where
  "resolves_well outcome =
     (case outcome of
        Rejected \<Rightarrow> False
      | Resolved None \<Rightarrow> True
      | Resolved (Some d) \<Rightarrow> average_increase_percent d \<noteq> Non_number)"

text \<open>A chat with the pricing agent, just opened; used in the examples.\<close>

definition pricing_chat :: chat where
  "pricing_chat = initial_chat ''Pricing Agent'' PricingAgent (always (draw_of 1 2)) 0"

section \<open>Properties of the draws\<close>

lemma draw_val_bounds: "0 \<le> draw_val d \<and> draw_val d < 1"
  using draw_val [of d] by simp

section \<open>Lemmas\<close>

lemma generateExecution_eq:
  "generateExecution w =
     (\<lparr> exec_id = Ident ''exec'' (now w) (rng w !! 2) None,
        agentName = pick agentNames (rng w !! 0),
        operation = pick operations (rng w !! 1),
        status = Running,
        startTime = now w,
        duration = 0,
        dataProcessed = floor_scaled (rng w !! 3) 50000 + 10000 \<rparr>,
      w\<lparr>rng := sdrop 4 (rng w)\<rparr>)"
  by (simp add: generateExecution_def Math_random_def eval_nat_numeral)

lemma generateDataOperation_eq:
  "generateDataOperation ag w =
     (\<lparr> op_id = Ident ''data'' (now w) (rng w !! 2) None,
        table = pick tables (rng w !! 0),
        db_op = operation_of_rand (rng w !! 1),
        recordsAffected = floor_scaled (rng w !! 3) 25000 + 5000,
        timestamp = now w,
        agent = ag \<rparr>, w\<lparr>rng := sdrop 4 (rng w)\<rparr>)"
  by (simp add: generateDataOperation_def Math_random_def eval_nat_numeral)

lemma generateAlert_eq:
  "generateAlert name w =
     (if draw_val (rng w !! 3) < 7 / 10
      then (alert_of_type name (alertTypes (rng w !! 0) (rng w !! 1) (rng w !! 2) ! 0)
              (Ident ''alert'' (now w) (rng w !! 4) None) (now w),
            w\<lparr>rng := sdrop 5 (rng w)\<rparr>)
      else (alert_of_type name
              (alertTypes (rng w !! 0) (rng w !! 1) (rng w !! 2)
                 ! nat (floor_scaled (rng w !! 4) 5 + 1))
              (Ident ''alert'' (now w) (rng w !! 5) None) (now w),
            w\<lparr>rng := sdrop 6 (rng w)\<rparr>))"
  by (simp add: generateAlert_def Math_random_def alert_index_def eval_nat_numeral)

lemma emit_dataOp_eq:
  "emit_dataOp ag w =
     w\<lparr>rng := sdrop 4 (rng w),
       dataOps := insert_dataOp (fst (generateDataOperation ag w)) (dataOps w)\<rparr>"
  by (simp add: emit_dataOp_def generateDataOperation_eq)

lemma emit_alert_eq:
  "emit_alert ag w =
     w\<lparr>rng := rng (snd (generateAlert ag w)),
       alerts := insert_alert (fst (generateAlert ag w)) (alerts w)\<rparr>"
  by (simp add: emit_alert_def generateAlert_eq)

lemma work_step_eq:
  "work_step e w =
     (if draw_val (shd (rng w)) < 3 / 10
      then emit_dataOp (agentName e) (w\<lparr>rng := stl (rng w)\<rparr>)
      else w\<lparr>rng := stl (rng w)\<rparr>)"
  by (simp add: work_step_def Math_random_def)

lemma work_step_frame:
  "executions (work_step e w) = executions w"
  "alerts (work_step e w) = alerts w"
  "timers (work_step e w) = timers w"
  "now (work_step e w) = now w"
  by (simp_all add: work_step_eq emit_dataOp_eq)

lemma stop_or_complete_stop:
  "draw_val (shd (rng w)) < 2 / 100 \<Longrightarrow>
   stop_or_complete e nd w =
     (e\<lparr>status := Stopped, duration := nd\<rparr>, emit_alert (agentName e) (w\<lparr>rng := stl (rng w)\<rparr>))"
  by (simp add: stop_or_complete_def Math_random_def)

lemma stop_or_complete_nostop:
  "\<not> draw_val (shd (rng w)) < 2 / 100 \<Longrightarrow>
   stop_or_complete e nd w =
     (if nd > 3 + draw_val (rng w !! 1) * 12
      then (e\<lparr>status := Completed, duration := nd\<rparr>,
            schedule_final_ops (agentName e) (nat (floor_scaled (rng w !! 2) 2 + 1))
              (w\<lparr>rng := sdrop 3 (rng w)\<rparr>))
      else (e\<lparr>duration := nd\<rparr>, w\<lparr>rng := sdrop 2 (rng w)\<rparr>))"
  by (simp add: stop_or_complete_def Math_random_def eval_nat_numeral)

lemma emit_alert_frame:
  "executions (emit_alert ag w) = executions w"
  "dataOps (emit_alert ag w) = dataOps w"
  "timers (emit_alert ag w) = timers w"
  "now (emit_alert ag w) = now w"
  by (simp_all add: emit_alert_eq)

lemma schedule_final_ops_frame:
  "executions (schedule_final_ops ag n w) = executions w"
  "dataOps (schedule_final_ops ag n w) = dataOps w"
  "alerts (schedule_final_ops ag n w) = alerts w"
  "now (schedule_final_ops ag n w) = now w"
  "rng (schedule_final_ops ag n w) = rng w"
  by (simp_all add: schedule_final_ops_def)

lemma stop_or_complete_frame:
  "executions (snd (stop_or_complete e nd w)) = executions w"
  "dataOps (snd (stop_or_complete e nd w)) = dataOps w"
  "now (snd (stop_or_complete e nd w)) = now w"
  by (cases "draw_val (shd (rng w)) < 2 / 100";
      simp add: stop_or_complete_stop stop_or_complete_nostop emit_alert_frame
        schedule_final_ops_frame)+

lemma stop_or_complete_status:
  "status (fst (stop_or_complete e nd w)) \<in> {status e, Completed, Stopped}"
  by (cases "draw_val (shd (rng w)) < 2 / 100")
     (simp_all add: stop_or_complete_stop stop_or_complete_nostop)

lemma stop_or_complete_fields:
  "exec_id (fst (stop_or_complete e nd w)) = exec_id e"
  "agentName (fst (stop_or_complete e nd w)) = agentName e"
  "duration (fst (stop_or_complete e nd w)) = nd"
  by (cases "draw_val (shd (rng w)) < 2 / 100";
      simp add: stop_or_complete_stop stop_or_complete_nostop)+

lemma update_execution_status:
  "status (fst (update_execution e w)) \<in>
     (if status e = Running then {Running, Completed, Stopped} else {status e})"
  using stop_or_complete_status [of e "duration e + 2" "work_step e w"]
  by (auto simp: update_execution_def)

lemma update_execution_id: "exec_id (fst (update_execution e w)) = exec_id e"
  by (simp add: update_execution_def stop_or_complete_fields)

lemma update_execution_executions:
  "executions (snd (update_execution e w)) = executions w"
  by (simp add: update_execution_def stop_or_complete_frame work_step_frame)

lemma length_insert_dataOp: "length (insert_dataOp x L) \<le> 100"
  by (simp add: insert_dataOp_def)

lemma length_insert_alert: "length (insert_alert x L) \<le> 15"
  by (simp add: insert_alert_def)

lemma length_insert_execution: "length (insert_execution x L) \<le> 50"
  by (simp add: insert_execution_def)

lemma work_step_dataOps_le:
  "length (dataOps w) \<le> 100 \<Longrightarrow> length (dataOps (work_step e w)) \<le> 100"
  by (simp add: work_step_eq emit_dataOp_eq length_insert_dataOp)

lemma stop_or_complete_alerts_le:
  "length (alerts w) \<le> 15 \<Longrightarrow> length (alerts (snd (stop_or_complete e nd w))) \<le> 15"
  by (cases "draw_val (shd (rng w)) < 2 / 100")
     (simp_all add: stop_or_complete_stop stop_or_complete_nostop emit_alert_eq
        length_insert_alert schedule_final_ops_frame)

lemma update_execution_ledgers_le:
  assumes "length (dataOps w) \<le> 100" "length (alerts w) \<le> 15"
  shows "length (dataOps (snd (update_execution e w))) \<le> 100"
    and "length (alerts (snd (update_execution e w))) \<le> 15"
  using assms
  by (simp_all add: update_execution_def stop_or_complete_frame work_step_dataOps_le
        stop_or_complete_alerts_le work_step_frame)

lemma update_all_Cons:
  "update_all (e # es) w =
     (fst (update_execution e w) # fst (update_all es (snd (update_execution e w))),
      snd (update_all es (snd (update_execution e w))))"
  by (simp add: split_def Let_def)

lemma update_all_ledgers_le:
  "length (dataOps w) \<le> 100 \<Longrightarrow> length (alerts w) \<le> 15 \<Longrightarrow>
   length (dataOps (snd (update_all es w))) \<le> 100 \<and>
   length (alerts (snd (update_all es w))) \<le> 15"
proof (induction es arbitrary: w)
  case Nil
  then show ?case by simp
next
  case (Cons e es)
  have "length (dataOps (snd (update_execution e w))) \<le> 100"
    and "length (alerts (snd (update_execution e w))) \<le> 15"
    using Cons.prems by (simp_all add: update_execution_ledgers_le)
  then show ?case
    using Cons.IH [of "snd (update_execution e w)"] by (simp add: update_all_Cons del: update_all.simps)
qed

lemma update_all_ids:
  "map exec_id (fst (update_all es w)) = map exec_id es"
  by (induction es arbitrary: w) (simp_all add: update_all_Cons update_execution_id del: update_all.simps(2))

lemma update_all_length: "length (fst (update_all es w)) = length es"
  using update_all_ids [of es w] by (metis length_map)

lemma update_all_no_failed:
  "Failed \<notin> status ` set es \<Longrightarrow> Failed \<notin> status ` set (fst (update_all es w))"
proof (induction es arbitrary: w)
  case Nil
  then show ?case by simp
next
  case (Cons e es)
  have "status (fst (update_execution e w)) \<noteq> Failed"
    using update_execution_status [of e w] Cons.prems by (auto split: if_splits)
  then show ?case
    using Cons.IH [of "snd (update_execution e w)"] Cons.prems
    by (simp add: update_all_Cons del: update_all.simps)
qed

lemma update_all_executions:
  "executions (snd (update_all es w)) = executions w"
  by (induction es arbitrary: w)
     (simp_all add: update_all_Cons update_execution_executions del: update_all.simps(2))

lemma add_execution_eq:
  "add_execution w =
     w\<lparr>rng := sdrop 4 (rng w),
       executions := insert_execution (fst (generateExecution w)) (executions w)\<rparr>"
  by (simp add: add_execution_def generateExecution_eq)

lemma spawn_eq:
  "spawn w =
     (if runningCount (executions w) = 0 then add_execution w
      else if runningCount (executions w) < 3
      then (if draw_val (shd (rng w)) < 4 / 10
            then add_execution (w\<lparr>rng := stl (rng w)\<rparr>)
            else w\<lparr>rng := stl (rng w)\<rparr>)
      else w)"
  by (simp add: spawn_def Math_random_def Let_def)

lemma spawn_frame:
  "dataOps (spawn w) = dataOps w" "alerts (spawn w) = alerts w" "timers (spawn w) = timers w"
  "now (spawn w) = now w"
  by (simp_all add: spawn_eq add_execution_eq)

lemma spawn_length: "length (executions w) \<le> 50 \<Longrightarrow> length (executions (spawn w)) \<le> 50"
  by (simp add: spawn_eq add_execution_eq length_insert_execution)

lemma spawn_no_failed:
  "Failed \<notin> status ` set (executions w) \<Longrightarrow> Failed \<notin> status ` set (executions (spawn w))"
  by (auto simp: spawn_eq add_execution_eq insert_execution_def generateExecution_eq
        dest: in_set_takeD)

lemma advance_eq:
  "advance w = (snd (update_all (executions w) w))\<lparr>executions := fst (update_all (executions w) w)\<rparr>"
  by (simp add: advance_def split_def Let_def)

lemma tick_within_capacity: "within_capacity w \<Longrightarrow> within_capacity (tick w)"
  using update_all_ledgers_le [of "spawn w" "executions (spawn w)"]
  by (simp add: within_capacity_def tick_def advance_eq update_all_length spawn_length
        spawn_frame)

lemma fire_timer_within_capacity: "within_capacity w \<Longrightarrow> within_capacity (fire_timer k w)"
  by (simp add: within_capacity_def fire_timer_def emit_dataOp_eq length_insert_dataOp)

lemma within_capacity_now: "within_capacity (w\<lparr>now := t\<rparr>) = within_capacity w"
  by (simp add: within_capacity_def)

lemma step_within_capacity: "within_capacity w \<Longrightarrow> within_capacity (step w ev)"
  by (cases ev) (simp_all add: tick_within_capacity fire_timer_within_capacity
        within_capacity_now)

lemma tick_no_failed:
  "Failed \<notin> status ` set (executions w) \<Longrightarrow> Failed \<notin> status ` set (executions (tick w))"
  by (simp add: tick_def advance_eq update_all_no_failed spawn_no_failed)

lemma fire_timer_executions: "executions (fire_timer k w) = executions w"
  by (simp add: fire_timer_def emit_dataOp_eq)

lemma step_no_failed:
  "Failed \<notin> status ` set (executions w) \<Longrightarrow> Failed \<notin> status ` set (executions (step w ev))"
  by (cases ev) (simp_all add: tick_no_failed fire_timer_executions)

lemma run_snoc: "run w (evs @ [ev]) = step (run w evs) ev"
  by (simp add: run_def)

lemma run_within_capacity: "within_capacity w \<Longrightarrow> within_capacity (run w evs)"
  by (induction evs rule: rev_induct) (simp_all add: run_snoc step_within_capacity, simp add: run_def)

lemma run_no_failed:
  "Failed \<notin> status ` set (executions w) \<Longrightarrow> Failed \<notin> status ` set (executions (run w evs))"
  by (induction evs rule: rev_induct) (simp_all add: run_snoc step_no_failed, simp add: run_def)

lemma seed_loop_length:
  "length (fst (seed_loop lo width body i acc w)) \<le> length acc + (lo + width - i)"
proof (induction lo width body i acc w rule: seed_loop.induct)
  case (1 lo width body i acc w)
  show ?case
  proof (cases "int i < int lo + floor_scaled (fst (Math_random w)) (real width)")
    case True
    then have "i < lo + width"
      using floor_scaled_le [of "fst (Math_random w)" width] by linarith
    with "1.IH" [OF True] True show ?thesis
      by (subst seed_loop.simps) simp
  next
    case False
    then show ?thesis
      by (subst seed_loop.simps) simp
  qed
qed

lemma seed_loop_set:
  "(\<And>j v. P (fst (body j v))) \<Longrightarrow> list_all P acc \<Longrightarrow>
   list_all P (fst (seed_loop lo width body i acc w))"
proof (induction lo width body i acc w rule: seed_loop.induct)
  case (1 lo width body i acc w)
  show ?case
  proof (cases "int i < int lo + floor_scaled (fst (Math_random w)) (real width)")
    case True
    have "list_all P (acc @ [fst (body i (snd (Math_random w)))])"
      using "1.prems" by simp
    then have "list_all P (fst (seed_loop lo width body (Suc i)
        (acc @ [fst (body i (snd (Math_random w)))]) (snd (body i (snd (Math_random w))))))"
      using "1.prems" (1) by (intro "1.IH" [OF True])
    then show ?thesis
      using True by (subst seed_loop.simps) simp
  next
    case False
    with "1.prems" show ?thesis
      by (subst seed_loop.simps) simp
  qed
qed

lemma seed_entry_status:
  "status (fst (seed_running_entry i w)) = Running"
  "status (fst (seed_completed_entry i w)) = Completed"
  "status (fst (seed_stopped_entry i w)) = Stopped"
  by (simp_all add: seed_running_entry_def seed_completed_entry_def seed_stopped_entry_def
        Math_random_def Let_def)

lemma seed_executions_length: "length (fst (seed_executions w)) \<le> 30"
proof -
  let ?r = "seed_loop 1 3 seed_running_entry 0 [] w"
  let ?c = "seed_loop 15 6 seed_completed_entry 0 (fst ?r) (snd ?r)"
  let ?s = "seed_loop 2 3 seed_stopped_entry 0 (fst ?c) (snd ?c)"
  have "length (fst ?r) \<le> 4"
    using seed_loop_length [of 1 3 seed_running_entry 0 "[]" w] by simp
  moreover have "length (fst ?c) \<le> length (fst ?r) + 21"
    using seed_loop_length [of 15 6 seed_completed_entry 0 "fst ?r" "snd ?r"] by simp
  moreover have "length (fst ?s) \<le> length (fst ?c) + 5"
    using seed_loop_length [of 2 3 seed_stopped_entry 0 "fst ?c" "snd ?c"] by simp
  ultimately have "length (fst ?s) \<le> 30"
    by linarith
  then show ?thesis
    by (simp add: seed_executions_def split_def Let_def)
qed

lemma seed_executions_no_failed: "Failed \<notin> status ` set (fst (seed_executions w))"
proof -
  let ?P = "\<lambda>e. status e \<noteq> Failed"
  let ?r = "seed_loop 1 3 seed_running_entry 0 [] w"
  let ?c = "seed_loop 15 6 seed_completed_entry 0 (fst ?r) (snd ?r)"
  let ?s = "seed_loop 2 3 seed_stopped_entry 0 (fst ?c) (snd ?c)"
  have "list_all ?P (fst ?r)"
    by (rule seed_loop_set) (simp_all add: seed_entry_status)
  then have "list_all ?P (fst ?c)"
    by (intro seed_loop_set) (simp_all add: seed_entry_status)
  then have "list_all ?P (fst ?s)"
    by (intro seed_loop_set) (simp_all add: seed_entry_status)
  then show ?thesis
    by (auto simp: seed_executions_def split_def Let_def list_all_iff)
qed

lemma initial_executions:
  "executions (initial_dashboard g t) =
     fst (seed_executions \<lparr> rng = g, now = t, executions = [], dataOps = [], alerts = [], timers = [] \<rparr>)"
  by (simp add: initial_dashboard_def split_def Let_def)

lemma initial_dataOps_length: "length (dataOps (initial_dashboard g t)) \<le> 31"
proof -
  have "length (fst (seed_dataOps v)) \<le> 31" for v :: dashboard
    using seed_loop_length [of 20 11 seed_dataOp_entry 0 "[]" v]
    by (simp add: seed_dataOps_def split_def Let_def)
  then show ?thesis
    by (simp add: initial_dashboard_def split_def Let_def)
qed

lemma initial_alerts_length: "length (alerts (initial_dashboard g t)) \<le> 4"
proof -
  have "length (fst (seed_alerts v)) \<le> 4" for v :: dashboard
    using seed_loop_length [of 1 3 seed_alert_entry 0 "[]" v]
    by (simp add: seed_alerts_def split_def Let_def)
  then show ?thesis
    by (simp add: initial_dashboard_def split_def Let_def)
qed

lemma initial_within_capacity: "within_capacity (initial_dashboard g t)"
  using seed_executions_length
          [of "\<lparr> rng = g, now = t, executions = [], dataOps = [], alerts = [], timers = [] \<rparr>"]
        initial_dataOps_length [of g t] initial_alerts_length [of g t]
  by (simp add: within_capacity_def initial_executions)

lemma initial_no_failed: "Failed \<notin> status ` set (executions (initial_dashboard g t))"
  by (simp only: initial_executions seed_executions_no_failed not_False_eq_True)

lemma always_simps [simp]:
  "shd (always c) = c" "stl (always c) = always c" "always c !! n = c"
  "sdrop n (always c) = always c"
proof -
  show "shd (always c) = c" "stl (always c) = always c"
    by (simp_all add: always_def)
  show "always c !! n = c"
    by (induction n) (simp_all add: always_def)
  show "sdrop n (always c) = always c"
    by (induction n) (simp_all add: always_def)
qed

lemma operation_of_rand_cases:
  "(operation_of_rand r = SELECT \<longleftrightarrow> draw_val r < 9 / 10) \<and>
   (operation_of_rand r = INSERT \<longleftrightarrow> 9 / 10 \<le> draw_val r \<and> draw_val r < 95 / 100) \<and>
   (operation_of_rand r = UPDATE \<longleftrightarrow> 95 / 100 \<le> draw_val r) \<and>
   operation_of_rand r \<noteq> DELETE"
  by (simp add: operation_of_rand_def)

lemma select_draws:
  "{x. \<exists>r. draw_val r = x \<and> operation_of_rand r = SELECT} = {0 ..< 9 / 10}"
proof (rule set_eqI)
  fix x :: real
  show "x \<in> {x. \<exists>r. draw_val r = x \<and> operation_of_rand r = SELECT} \<longleftrightarrow> x \<in> {0 ..< 9 / 10}"
  proof
    assume "x \<in> {x. \<exists>r. draw_val r = x \<and> operation_of_rand r = SELECT}"
    then obtain r where "draw_val r = x" "operation_of_rand r = SELECT" by blast
    then show "x \<in> {0 ..< 9 / 10}"
      using draw_val_bounds [of r] by (simp add: operation_of_rand_def split: if_splits)
  next
    assume "x \<in> {0 ..< 9 / 10}"
    then have x: "0 \<le> x" "x < 9 / 10" by simp_all
    then have "draw_val (Abs_draw x) = x"
      by (simp add: Abs_draw_inverse)
    with x show "x \<in> {x. \<exists>r. draw_val r = x \<and> operation_of_rand r = SELECT}"
      by (auto simp: operation_of_rand_def intro!: exI [of _ "Abs_draw x"])
  qed
qed

lemma floor_scaled_range: "0 < n \<Longrightarrow> 0 \<le> floor_scaled d (real n) \<and> floor_scaled d (real n) < int n"
proof -
  assume n: "0 < n"
  have d: "0 \<le> draw_val d" "draw_val d < 1"
    using draw_val_bounds [of d] by simp_all
  then have "draw_val d * real n < real n"
    using n by simp
  then have "\<lfloor>draw_val d * real n\<rfloor> < int n"
    by (simp add: floor_less_iff)
  moreover have "0 \<le> \<lfloor>draw_val d * real n\<rfloor>"
    using d by simp
  ultimately show ?thesis
    by (simp add: floor_scaled_def)
qed

lemma metric_ranges:
  "floor_scaled c 30 + 45 \<in> {45..74}"
  "floor_scaled q 25 + 60 \<in> {60..84}"
  "floor_scaled a 15 + 75 \<in> {75..89}"
  using floor_scaled_range [of 30 c] floor_scaled_range [of 25 q] floor_scaled_range [of 15 a]
  by simp_all

lemma other_index_range: "nat (floor_scaled k 5 + 1) \<in> {1..5}"
  using floor_scaled_range [of 5 k] by auto

lemma fifth_of_draw:
  "nat (floor_scaled k 5) < 5 \<and>
   real (nat (floor_scaled k 5)) / 5 \<le> draw_val k \<and>
   draw_val k < (real (nat (floor_scaled k 5)) + 1) / 5"
proof -
  have nonneg: "0 \<le> floor_scaled k 5" and less: "floor_scaled k 5 < 5"
    using floor_scaled_range [of 5 k] by simp_all
  have "of_int \<lfloor>draw_val k * 5\<rfloor> \<le> draw_val k * 5"
    and "draw_val k * 5 < of_int \<lfloor>draw_val k * 5\<rfloor> + 1"
    by linarith+
  then have "real_of_int (floor_scaled k 5) / 5 \<le> draw_val k"
    and "draw_val k < (real_of_int (floor_scaled k 5) + 1) / 5"
    by (simp_all add: floor_scaled_def field_simps)
  moreover have "real (nat (floor_scaled k 5)) = real_of_int (floor_scaled k 5)"
    using nonneg by simp
  ultimately show ?thesis
    using nonneg less by simp
qed

lemma alert_of_type_fields:
  "reason (alert_of_type name t i ts) = at_reason t"
  "alert_agentName (alert_of_type name t i ts) = name"
  "confidenceScore (details (alert_of_type name t i ts)) = at_confidenceScore t"
  "accuracy (details (alert_of_type name t i ts)) = at_accuracy t"
  "dataQuality (details (alert_of_type name t i ts)) = at_dataQuality t"
  by (simp_all add: alert_of_type_def)

lemma alertTypes_nth:
  assumes "n \<le> 5"
  shows "at_reason (alertTypes c q a ! n) = alert_reasons ! n"
    and "at_confidenceScore (alertTypes c q a ! n) =
           (if n = 0 then Some (floor_scaled c 30 + 45) else None)"
    and "at_dataQuality (alertTypes c q a ! n) =
           (if n = 1 then Some (floor_scaled q 25 + 60) else None)"
    and "at_accuracy (alertTypes c q a ! n) =
           (if n = 2 then Some (floor_scaled a 15 + 75) else None)"
proof -
  from assms have "n = 0 \<or> n = 1 \<or> n = 2 \<or> n = 3 \<or> n = 4 \<or> n = 5"
    by linarith
  then show "at_reason (alertTypes c q a ! n) = alert_reasons ! n"
    by (elim disjE) (simp_all add: alertTypes_def alert_reasons_def)
  from \<open>n = 0 \<or> n = 1 \<or> n = 2 \<or> n = 3 \<or> n = 4 \<or> n = 5\<close>
  show "at_confidenceScore (alertTypes c q a ! n) =
           (if n = 0 then Some (floor_scaled c 30 + 45) else None)"
    by (elim disjE) (simp_all add: alertTypes_def)
  from \<open>n = 0 \<or> n = 1 \<or> n = 2 \<or> n = 3 \<or> n = 4 \<or> n = 5\<close>
  show "at_dataQuality (alertTypes c q a ! n) =
           (if n = 1 then Some (floor_scaled q 25 + 60) else None)"
    by (elim disjE) (simp_all add: alertTypes_def)
  from \<open>n = 0 \<or> n = 1 \<or> n = 2 \<or> n = 3 \<or> n = 4 \<or> n = 5\<close>
  show "at_accuracy (alertTypes c q a ! n) =
           (if n = 2 then Some (floor_scaled a 15 + 75) else None)"
    by (elim disjE) (simp_all add: alertTypes_def)
qed

lemma alert_reasons_nth:
  assumes "n \<le> 5"
  shows "alert_reasons ! n = ''Low confidence score detected'' \<longleftrightarrow> n = 0"
    and "alert_reasons ! n = ''Data quality degradation'' \<longleftrightarrow> n = 1"
    and "alert_reasons ! n = ''Model accuracy drift detected'' \<longleftrightarrow> n = 2"
proof -
  from assms have n: "n = 0 \<or> n = 1 \<or> n = 2 \<or> n = 3 \<or> n = 4 \<or> n = 5"
    by linarith
  from n show "alert_reasons ! n = ''Low confidence score detected'' \<longleftrightarrow> n = 0"
    by (elim disjE) (simp_all add: alert_reasons_def)
  from n show "alert_reasons ! n = ''Data quality degradation'' \<longleftrightarrow> n = 1"
    by (elim disjE) (simp_all add: alert_reasons_def)
  from n show "alert_reasons ! n = ''Model accuracy drift detected'' \<longleftrightarrow> n = 2"
    by (elim disjE) (simp_all add: alert_reasons_def)
qed

lemma generateAlert_type:
  "\<exists>i ts. fst (generateAlert name w) =
     alert_of_type name
       (alertTypes (rng w !! 0) (rng w !! 1) (rng w !! 2)
          ! (if draw_val (rng w !! 3) < 7 / 10 then 0 else nat (floor_scaled (rng w !! 4) 5) + 1))
       i ts"
proof -
  have "nat (floor_scaled (rng w !! 4) 5 + 1) = nat (floor_scaled (rng w !! 4) 5) + 1"
    using floor_scaled_range [of 5 "rng w !! 4"] by (simp add: nat_add_distrib)
  then show ?thesis
    by (cases "draw_val (rng w !! 3) < 7 / 10") (simp_all add: generateAlert_eq, blast+)
qed

lemma insert_as_take:
  "insert_execution e es = take 50 (e # es)"
  "insert_dataOp x xs = take 100 (x # xs)"
  "insert_alert a as = take 15 (a # as)"
  by (simp_all add: insert_execution_def insert_dataOp_def insert_alert_def)

lemma take_cons_take: "0 < n \<Longrightarrow> take n (x # take n xs) = take n (x # xs)"
  by (cases n) simp_all

lemma foldl_insert_take:
  "0 < n \<Longrightarrow> length L \<le> n \<Longrightarrow> foldl (\<lambda>L y. take n (y # L)) L ys = take n (rev ys @ L)"
proof (induction ys rule: rev_induct)
  case Nil
  then show ?case by simp
next
  case (snoc y ys)
  then have "foldl (\<lambda>L y. take n (y # L)) L (ys @ [y]) = take n (y # take n (rev ys @ L))"
    by (simp del: take_append)
  also have "\<dots> = take n (y # rev ys @ L)"
    using snoc.prems by (rule_tac take_cons_take)
  finally show ?case by simp
qed

lemma update_all_idle:
  "Running \<notin> status ` set es \<Longrightarrow> update_all es w = (es, w)"
  by (induction es) (auto simp: update_all_Cons update_execution_def simp del: update_all.simps(2))

lemma tick_from_zero_running:
  assumes "runningCount (executions w) = 0"
  shows "runningCount (executions (tick w)) =
     (if draw_val (shd (rng (work_step (fst (generateExecution w)) (add_execution w)))) < 2 / 100
      then 0 else 1)"
proof -
  define e where "e = fst (generateExecution w)"
  define w1 where "w1 = add_execution w"
  define rest where "rest = take 49 (executions w)"
  have idle: "Running \<notin> status ` set (executions w)"
    using assms by (force simp: runningCount_def filter_empty_conv image_iff)
  then have rest: "Running \<notin> status ` set rest"
    by (auto simp: rest_def dest: in_set_takeD)
  have e: "status e = Running" "duration e = 0"
    by (simp_all add: e_def generateExecution_eq)
  have sp: "spawn w = w1" "executions w1 = e # rest"
    using assms by (simp_all add: spawn_eq w1_def add_execution_eq insert_execution_def e_def rest_def)
  have "executions (tick w) = fst (update_execution e w1) # rest"
    by (simp add: tick_def advance_eq sp update_all_Cons update_all_idle [OF rest]
          del: update_all.simps)
  moreover have "status (fst (update_execution e w1)) =
      (if draw_val (shd (rng (work_step e w1))) < 2 / 100 then Stopped else Running)"
    using e draw_val_bounds [of "rng (work_step e w1) !! 1"]
    by (simp add: update_execution_def stop_or_complete_stop stop_or_complete_nostop)
  moreover have "filter (\<lambda>e. status e = Running) rest = []"
    using rest by (force simp: filter_empty_conv image_iff)
  ultimately show ?thesis
    by (simp add: runningCount_def e_def w1_def)
qed

lemma generateDataOperation_ops:
  "generateDataOperation ag (w\<lparr>dataOps := L\<rparr>) =
     (fst (generateDataOperation ag w), (snd (generateDataOperation ag w))\<lparr>dataOps := L\<rparr>)"
  by (simp add: generateDataOperation_eq)

lemma generateAlert_ops:
  "generateAlert ag (w\<lparr>dataOps := L\<rparr>) =
     (fst (generateAlert ag w), (snd (generateAlert ag w))\<lparr>dataOps := L\<rparr>)"
  by (simp add: generateAlert_eq)

lemma emit_dataOp_ops:
  "emit_dataOp ag (w\<lparr>dataOps := L\<rparr>) =
     (emit_dataOp ag w)\<lparr>dataOps := insert_dataOp (fst (generateDataOperation ag w)) L\<rparr>"
  by (simp add: emit_dataOp_eq generateDataOperation_eq)

lemma emit_alert_ops:
  "emit_alert ag (w\<lparr>dataOps := L\<rparr>) = (emit_alert ag w)\<lparr>dataOps := L\<rparr>"
  by (simp add: emit_alert_eq generateAlert_eq)

lemma work_step_ops:
  "\<exists>N. \<forall>L. work_step e (w\<lparr>dataOps := L\<rparr>) =
     (work_step e w)\<lparr>dataOps := foldr insert_dataOp N L\<rparr>"
proof (cases "draw_val (shd (rng w)) < 3 / 10")
  case True
  have "\<forall>L. work_step e (w\<lparr>dataOps := L\<rparr>) =
     (work_step e w)\<lparr>dataOps := foldr insert_dataOp
        [fst (generateDataOperation (agentName e) (w\<lparr>rng := stl (rng w)\<rparr>))] L\<rparr>"
    using True by (simp add: work_step_eq emit_dataOp_eq generateDataOperation_eq)
  then show ?thesis ..
next
  case False
  have "\<forall>L. work_step e (w\<lparr>dataOps := L\<rparr>) =
     (work_step e w)\<lparr>dataOps := foldr insert_dataOp [] L\<rparr>"
    using False by (simp add: work_step_eq)
  then show ?thesis ..
qed

lemma stop_or_complete_ops:
  "stop_or_complete e nd (w\<lparr>dataOps := L\<rparr>) =
     (fst (stop_or_complete e nd w), (snd (stop_or_complete e nd w))\<lparr>dataOps := L\<rparr>)"
  by (cases "draw_val (shd (rng w)) < 2 / 100")
     (simp_all add: stop_or_complete_stop stop_or_complete_nostop emit_alert_eq generateAlert_eq
        schedule_final_ops_def)

lemma update_execution_ops:
  "\<exists>N. \<forall>L. update_execution e (w\<lparr>dataOps := L\<rparr>) =
     (fst (update_execution e w),
      (snd (update_execution e w))\<lparr>dataOps := foldr insert_dataOp N L\<rparr>)"
proof (cases "status e = Running")
  case True
  obtain N where N: "\<forall>L. work_step e (w\<lparr>dataOps := L\<rparr>) =
     (work_step e w)\<lparr>dataOps := foldr insert_dataOp N L\<rparr>"
    using work_step_ops by blast
  have "\<forall>L. update_execution e (w\<lparr>dataOps := L\<rparr>) =
     (fst (update_execution e w),
      (snd (update_execution e w))\<lparr>dataOps := foldr insert_dataOp N L\<rparr>)"
    using True by (simp add: update_execution_def N stop_or_complete_ops)
  then show ?thesis ..
next
  case False
  have "\<forall>L. update_execution e (w\<lparr>dataOps := L\<rparr>) =
     (fst (update_execution e w),
      (snd (update_execution e w))\<lparr>dataOps := foldr insert_dataOp [] L\<rparr>)"
    using False by (simp add: update_execution_def)
  then show ?thesis ..
qed

lemma update_all_ops:
  "\<exists>N. \<forall>L. update_all es (w\<lparr>dataOps := L\<rparr>) =
     (fst (update_all es w), (snd (update_all es w))\<lparr>dataOps := foldr insert_dataOp N L\<rparr>)"
proof (induction es arbitrary: w)
  case Nil
  have "\<forall>L. update_all [] (w\<lparr>dataOps := L\<rparr>) =
     (fst (update_all [] w), (snd (update_all [] w))\<lparr>dataOps := foldr insert_dataOp [] L\<rparr>)"
    by simp
  then show ?case ..
next
  case (Cons e es)
  obtain N where N: "\<forall>L. update_execution e (w\<lparr>dataOps := L\<rparr>) =
     (fst (update_execution e w),
      (snd (update_execution e w))\<lparr>dataOps := foldr insert_dataOp N L\<rparr>)"
    using update_execution_ops by blast
  obtain M where M: "\<forall>L. update_all es ((snd (update_execution e w))\<lparr>dataOps := L\<rparr>) =
     (fst (update_all es (snd (update_execution e w))),
      (snd (update_all es (snd (update_execution e w))))\<lparr>dataOps := foldr insert_dataOp M L\<rparr>)"
    using Cons.IH by blast
  have "\<forall>L. update_all (e # es) (w\<lparr>dataOps := L\<rparr>) =
     (fst (update_all (e # es) w),
      (snd (update_all (e # es) w))\<lparr>dataOps := foldr insert_dataOp (M @ N) L\<rparr>)"
    by (simp add: update_all_Cons N M del: update_all.simps)
  then show ?case ..
qed

lemma spawn_ops: "spawn (w\<lparr>dataOps := L\<rparr>) = (spawn w)\<lparr>dataOps := L\<rparr>"
  by (simp add: spawn_eq add_execution_eq generateExecution_eq)

lemma tick_ops:
  "\<exists>N. \<forall>L. tick (w\<lparr>dataOps := L\<rparr>) = (tick w)\<lparr>dataOps := foldr insert_dataOp N L\<rparr>"
proof -
  obtain N where N: "\<forall>L. update_all (executions (spawn w)) ((spawn w)\<lparr>dataOps := L\<rparr>) =
     (fst (update_all (executions (spawn w)) (spawn w)),
      (snd (update_all (executions (spawn w)) (spawn w)))\<lparr>dataOps := foldr insert_dataOp N L\<rparr>)"
    using update_all_ops by blast
  have "\<forall>L. tick (w\<lparr>dataOps := L\<rparr>) = (tick w)\<lparr>dataOps := foldr insert_dataOp N L\<rparr>"
    by (simp add: tick_def advance_eq spawn_ops N)
  then show ?thesis ..
qed

lemma fire_timer_ops:
  "\<exists>N. \<forall>L. fire_timer k (w\<lparr>dataOps := L\<rparr>) =
     (fire_timer k w)\<lparr>dataOps := foldr insert_dataOp N L\<rparr>"
proof (cases "k < length (timers w)")
  case True
  have "\<forall>L. fire_timer k (w\<lparr>dataOps := L\<rparr>) =
     (fire_timer k w)\<lparr>dataOps := foldr insert_dataOp
        [fst (generateDataOperation (snd (timers w ! k)) w)] L\<rparr>"
    using True by (simp add: fire_timer_def emit_dataOp_eq generateDataOperation_eq)
  then show ?thesis ..
next
  case False
  have "\<forall>L. fire_timer k (w\<lparr>dataOps := L\<rparr>) =
     (fire_timer k w)\<lparr>dataOps := foldr insert_dataOp [] L\<rparr>"
    using False by (simp add: fire_timer_def)
  then show ?thesis ..
qed

lemma step_ops:
  "\<exists>N. \<forall>L. step (w\<lparr>dataOps := L\<rparr>) ev = (step w ev)\<lparr>dataOps := foldr insert_dataOp N L\<rparr>"
proof (cases ev)
  case (Tick t)
  have comm: "(w\<lparr>dataOps := L\<rparr>)\<lparr>now := t\<rparr> = (w\<lparr>now := t\<rparr>)\<lparr>dataOps := L\<rparr>" for L
    by simp
  obtain N where N: "\<forall>L. tick ((w\<lparr>now := t\<rparr>)\<lparr>dataOps := L\<rparr>) =
      (tick (w\<lparr>now := t\<rparr>))\<lparr>dataOps := foldr insert_dataOp N L\<rparr>"
    using tick_ops [of "w\<lparr>now := t\<rparr>"] by blast
  have "\<forall>L. step (w\<lparr>dataOps := L\<rparr>) ev = (step w ev)\<lparr>dataOps := foldr insert_dataOp N L\<rparr>"
    unfolding Tick step.simps comm by (rule N)
  then show ?thesis ..
next
  case (Timeout k t)
  have comm: "(w\<lparr>dataOps := L\<rparr>)\<lparr>now := t\<rparr> = (w\<lparr>now := t\<rparr>)\<lparr>dataOps := L\<rparr>" for L
    by simp
  obtain N where N: "\<forall>L. fire_timer k ((w\<lparr>now := t\<rparr>)\<lparr>dataOps := L\<rparr>) =
      (fire_timer k (w\<lparr>now := t\<rparr>))\<lparr>dataOps := foldr insert_dataOp N L\<rparr>"
    using fire_timer_ops [of k "w\<lparr>now := t\<rparr>"] by blast
  have "\<forall>L. step (w\<lparr>dataOps := L\<rparr>) ev = (step w ev)\<lparr>dataOps := foldr insert_dataOp N L\<rparr>"
    unfolding Timeout step.simps comm by (rule N)
  then show ?thesis ..
qed

lemma run_ops:
  "\<exists>N. \<forall>L. run (w\<lparr>dataOps := L\<rparr>) evs = (run w evs)\<lparr>dataOps := foldr insert_dataOp N L\<rparr>"
proof (induction evs rule: rev_induct)
  case Nil
  have "\<forall>L. run (w\<lparr>dataOps := L\<rparr>) [] = (run w [])\<lparr>dataOps := foldr insert_dataOp [] L\<rparr>"
    by (simp add: run_def)
  then show ?case ..
next
  case (snoc ev evs)
  then obtain N where N: "\<forall>L. run (w\<lparr>dataOps := L\<rparr>) evs =
      (run w evs)\<lparr>dataOps := foldr insert_dataOp N L\<rparr>"
    by blast
  obtain M where M: "\<forall>L. step ((run w evs)\<lparr>dataOps := L\<rparr>) ev =
      (step (run w evs) ev)\<lparr>dataOps := foldr insert_dataOp M L\<rparr>"
    using step_ops by blast
  have "\<forall>L. run (w\<lparr>dataOps := L\<rparr>) (evs @ [ev]) =
      (run w (evs @ [ev]))\<lparr>dataOps := foldr insert_dataOp (M @ N) L\<rparr>"
    by (simp add: run_snoc N M)
  then show ?case ..
qed

lemma foldr_insert_dataOp:
  "length L \<le> 100 \<Longrightarrow> foldr insert_dataOp N L = take 100 (N @ L)"
proof (induction N)
  case Nil
  then show ?case by simp
next
  case (Cons x N)
  have "foldr insert_dataOp (x # N) L = insert_dataOp x (foldr insert_dataOp N L)"
    by simp
  also have "\<dots> = insert_dataOp x (take 100 (N @ L))"
    using Cons by simp
  also have "\<dots> = take 100 (x # take 100 (N @ L))"
    by (rule insert_as_take)
  also have "\<dots> = take 100 (x # N @ L)"
    by (rule take_cons_take) simp
  finally show ?case by simp
qed

lemma take_take_append: "take n (take n xs @ ys) = take n (xs @ ys)"
  by (simp add: min_def)

lemma run_dataOps_most_recent:
  assumes "length (dataOps w) \<le> 100"
  shows "dataOps (run w evs) = take 100 (dataOps (run (w\<lparr>dataOps := []\<rparr>) evs) @ dataOps w)"
proof -
  obtain N where N: "\<forall>L. run (w\<lparr>dataOps := L\<rparr>) evs =
      (run w evs)\<lparr>dataOps := foldr insert_dataOp N L\<rparr>"
    using run_ops by blast
  from N have e1: "run (w\<lparr>dataOps := dataOps w\<rparr>) evs =
      (run w evs)\<lparr>dataOps := foldr insert_dataOp N (dataOps w)\<rparr>"
    by (rule spec)
  have "dataOps (run (w\<lparr>dataOps := dataOps w\<rparr>) evs) = foldr insert_dataOp N (dataOps w)"
    by (subst e1) simp
  then have a: "dataOps (run w evs) = foldr insert_dataOp N (dataOps w)"
    by simp
  from N have b: "dataOps (run (w\<lparr>dataOps := []\<rparr>) evs) = foldr insert_dataOp N []"
    by simp
  show ?thesis
    unfolding a b using assms
    by (simp add: foldr_insert_dataOp take_take_append del: take_append)
qed

lemma emit_dataOp_als:
  "emit_dataOp ag (w\<lparr>alerts := A\<rparr>) = (emit_dataOp ag w)\<lparr>alerts := A\<rparr>"
  by (simp add: emit_dataOp_eq generateDataOperation_eq)

lemma work_step_als: "work_step e (w\<lparr>alerts := A\<rparr>) = (work_step e w)\<lparr>alerts := A\<rparr>"
  by (simp add: work_step_eq emit_dataOp_eq generateDataOperation_eq)

lemma stop_or_complete_als:
  "\<exists>N. \<forall>A. stop_or_complete e nd (w\<lparr>alerts := A\<rparr>) =
     (fst (stop_or_complete e nd w),
      (snd (stop_or_complete e nd w))\<lparr>alerts := foldr insert_alert N A\<rparr>)"
proof (cases "draw_val (shd (rng w)) < 2 / 100")
  case True
  have "\<forall>A. stop_or_complete e nd (w\<lparr>alerts := A\<rparr>) =
     (fst (stop_or_complete e nd w),
      (snd (stop_or_complete e nd w))\<lparr>alerts := foldr insert_alert
         [fst (generateAlert (agentName e) (w\<lparr>rng := stl (rng w)\<rparr>))] A\<rparr>)"
    using True by (simp add: stop_or_complete_stop emit_alert_eq generateAlert_eq)
  then show ?thesis ..
next
  case False
  have "\<forall>A. stop_or_complete e nd (w\<lparr>alerts := A\<rparr>) =
     (fst (stop_or_complete e nd w),
      (snd (stop_or_complete e nd w))\<lparr>alerts := foldr insert_alert [] A\<rparr>)"
    using False by (simp add: stop_or_complete_nostop schedule_final_ops_def)
  then show ?thesis ..
qed

lemma update_execution_als:
  "\<exists>N. \<forall>A. update_execution e (w\<lparr>alerts := A\<rparr>) =
     (fst (update_execution e w),
      (snd (update_execution e w))\<lparr>alerts := foldr insert_alert N A\<rparr>)"
proof (cases "status e = Running")
  case True
  obtain N where N: "\<forall>A. stop_or_complete e (duration e + 2) ((work_step e w)\<lparr>alerts := A\<rparr>) =
     (fst (stop_or_complete e (duration e + 2) (work_step e w)),
      (snd (stop_or_complete e (duration e + 2) (work_step e w)))
        \<lparr>alerts := foldr insert_alert N A\<rparr>)"
    using stop_or_complete_als by blast
  have "\<forall>A. update_execution e (w\<lparr>alerts := A\<rparr>) =
     (fst (update_execution e w),
      (snd (update_execution e w))\<lparr>alerts := foldr insert_alert N A\<rparr>)"
    using True by (simp add: update_execution_def work_step_als N)
  then show ?thesis ..
next
  case False
  have "\<forall>A. update_execution e (w\<lparr>alerts := A\<rparr>) =
     (fst (update_execution e w),
      (snd (update_execution e w))\<lparr>alerts := foldr insert_alert [] A\<rparr>)"
    using False by (simp add: update_execution_def)
  then show ?thesis ..
qed

lemma update_all_als:
  "\<exists>N. \<forall>A. update_all es (w\<lparr>alerts := A\<rparr>) =
     (fst (update_all es w), (snd (update_all es w))\<lparr>alerts := foldr insert_alert N A\<rparr>)"
proof (induction es arbitrary: w)
  case Nil
  have "\<forall>A. update_all [] (w\<lparr>alerts := A\<rparr>) =
     (fst (update_all [] w), (snd (update_all [] w))\<lparr>alerts := foldr insert_alert [] A\<rparr>)"
    by simp
  then show ?case ..
next
  case (Cons e es)
  obtain N where N: "\<forall>A. update_execution e (w\<lparr>alerts := A\<rparr>) =
     (fst (update_execution e w),
      (snd (update_execution e w))\<lparr>alerts := foldr insert_alert N A\<rparr>)"
    using update_execution_als by blast
  obtain M where M: "\<forall>A. update_all es ((snd (update_execution e w))\<lparr>alerts := A\<rparr>) =
     (fst (update_all es (snd (update_execution e w))),
      (snd (update_all es (snd (update_execution e w))))\<lparr>alerts := foldr insert_alert M A\<rparr>)"
    using Cons.IH by blast
  have "\<forall>A. update_all (e # es) (w\<lparr>alerts := A\<rparr>) =
     (fst (update_all (e # es) w),
      (snd (update_all (e # es) w))\<lparr>alerts := foldr insert_alert (M @ N) A\<rparr>)"
    by (simp add: update_all_Cons N M del: update_all.simps)
  then show ?case ..
qed

lemma spawn_als: "spawn (w\<lparr>alerts := A\<rparr>) = (spawn w)\<lparr>alerts := A\<rparr>"
  by (simp add: spawn_eq add_execution_eq generateExecution_eq)

lemma tick_als:
  "\<exists>N. \<forall>A. tick (w\<lparr>alerts := A\<rparr>) = (tick w)\<lparr>alerts := foldr insert_alert N A\<rparr>"
proof -
  obtain N where N: "\<forall>A. update_all (executions (spawn w)) ((spawn w)\<lparr>alerts := A\<rparr>) =
     (fst (update_all (executions (spawn w)) (spawn w)),
      (snd (update_all (executions (spawn w)) (spawn w)))\<lparr>alerts := foldr insert_alert N A\<rparr>)"
    using update_all_als by blast
  have "\<forall>A. tick (w\<lparr>alerts := A\<rparr>) = (tick w)\<lparr>alerts := foldr insert_alert N A\<rparr>"
    by (simp add: tick_def advance_eq spawn_als N)
  then show ?thesis ..
qed

lemma fire_timer_als:
  "fire_timer k (w\<lparr>alerts := A\<rparr>) = (fire_timer k w)\<lparr>alerts := A\<rparr>"
  by (simp add: fire_timer_def emit_dataOp_eq generateDataOperation_eq)

lemma step_als:
  "\<exists>N. \<forall>A. step (w\<lparr>alerts := A\<rparr>) ev = (step w ev)\<lparr>alerts := foldr insert_alert N A\<rparr>"
proof (cases ev)
  case (Tick t)
  have comm: "(w\<lparr>alerts := A\<rparr>)\<lparr>now := t\<rparr> = (w\<lparr>now := t\<rparr>)\<lparr>alerts := A\<rparr>" for A
    by simp
  obtain N where N: "\<forall>A. tick ((w\<lparr>now := t\<rparr>)\<lparr>alerts := A\<rparr>) =
      (tick (w\<lparr>now := t\<rparr>))\<lparr>alerts := foldr insert_alert N A\<rparr>"
    using tick_als [of "w\<lparr>now := t\<rparr>"] by blast
  have "\<forall>A. step (w\<lparr>alerts := A\<rparr>) ev = (step w ev)\<lparr>alerts := foldr insert_alert N A\<rparr>"
    unfolding Tick step.simps comm by (rule N)
  then show ?thesis ..
next
  case (Timeout k t)
  have "\<forall>A. step (w\<lparr>alerts := A\<rparr>) ev = (step w ev)\<lparr>alerts := foldr insert_alert [] A\<rparr>"
    by (simp add: Timeout fire_timer_def emit_dataOp_eq generateDataOperation_eq)
  then show ?thesis ..
qed

lemma run_als:
  "\<exists>N. \<forall>A. run (w\<lparr>alerts := A\<rparr>) evs = (run w evs)\<lparr>alerts := foldr insert_alert N A\<rparr>"
proof (induction evs rule: rev_induct)
  case Nil
  have "\<forall>A. run (w\<lparr>alerts := A\<rparr>) [] = (run w [])\<lparr>alerts := foldr insert_alert [] A\<rparr>"
    by (simp add: run_def)
  then show ?case ..
next
  case (snoc ev evs)
  then obtain N where N: "\<forall>A. run (w\<lparr>alerts := A\<rparr>) evs =
      (run w evs)\<lparr>alerts := foldr insert_alert N A\<rparr>"
    by blast
  obtain M where M: "\<forall>A. step ((run w evs)\<lparr>alerts := A\<rparr>) ev =
      (step (run w evs) ev)\<lparr>alerts := foldr insert_alert M A\<rparr>"
    using step_als by blast
  have "\<forall>A. run (w\<lparr>alerts := A\<rparr>) (evs @ [ev]) =
      (run w (evs @ [ev]))\<lparr>alerts := foldr insert_alert (M @ N) A\<rparr>"
    by (simp add: run_snoc N M)
  then show ?case ..
qed

lemma foldr_insert_alert:
  "length A \<le> 15 \<Longrightarrow> foldr insert_alert N A = take 15 (N @ A)"
proof (induction N)
  case Nil
  then show ?case by simp
next
  case (Cons x N)
  have "foldr insert_alert (x # N) A = insert_alert x (foldr insert_alert N A)"
    by simp
  also have "\<dots> = insert_alert x (take 15 (N @ A))"
    using Cons by simp
  also have "\<dots> = take 15 (x # take 15 (N @ A))"
    by (rule insert_as_take)
  also have "\<dots> = take 15 (x # N @ A)"
    by (rule take_cons_take) simp
  finally show ?case by simp
qed

lemma run_alerts_most_recent:
  assumes "length (alerts w) \<le> 15"
  shows "alerts (run w evs) = take 15 (alerts (run (w\<lparr>alerts := []\<rparr>) evs) @ alerts w)"
proof -
  obtain N where N: "\<forall>A. run (w\<lparr>alerts := A\<rparr>) evs =
      (run w evs)\<lparr>alerts := foldr insert_alert N A\<rparr>"
    using run_als by blast
  from N have e1: "run (w\<lparr>alerts := alerts w\<rparr>) evs =
      (run w evs)\<lparr>alerts := foldr insert_alert N (alerts w)\<rparr>"
    by (rule spec)
  have "alerts (run (w\<lparr>alerts := alerts w\<rparr>) evs) = foldr insert_alert N (alerts w)"
    by (subst e1) simp
  then have a: "alerts (run w evs) = foldr insert_alert N (alerts w)"
    by simp
  from N have b: "alerts (run (w\<lparr>alerts := []\<rparr>) evs) = foldr insert_alert N []"
    by simp
  show ?thesis
    unfolding a b using assms
    by (simp add: foldr_insert_alert take_take_append del: take_append)
qed

lemma spawn_ids:
  assumes "length (executions w) \<le> 50"
  shows "\<exists>new. length new \<le> 1 \<and>
     map exec_id (executions (spawn w)) = take 50 (new @ map exec_id (executions w))"
proof (cases "executions (spawn w) = executions w")
  case True
  with assms have "length [] \<le> (1::nat) \<and>
     map exec_id (executions (spawn w)) = take 50 ([] @ map exec_id (executions w))"
    by simp
  then show ?thesis ..
next
  case False
  then obtain v :: dashboard
    where "executions (spawn w) = insert_execution (fst (generateExecution v)) (executions w)"
    by (auto simp: spawn_eq add_execution_eq split: if_splits)
  then have "length [exec_id (fst (generateExecution v))] \<le> 1 \<and>
     map exec_id (executions (spawn w)) =
       take 50 ([exec_id (fst (generateExecution v))] @ map exec_id (executions w))"
    by (simp add: insert_execution_def take_map)
  then show ?thesis ..
qed

lemma step_ids:
  assumes "length (executions w) \<le> 50"
  shows "\<exists>new. length new \<le> 1 \<and>
     map exec_id (executions (step w ev)) = take 50 (new @ map exec_id (executions w))"
proof (cases ev)
  case (Tick t)
  have "map exec_id (executions (step w ev)) = map exec_id (executions (spawn (w\<lparr>now := t\<rparr>)))"
    by (simp add: Tick tick_def advance_eq update_all_ids)
  then show ?thesis
    using spawn_ids [of "w\<lparr>now := t\<rparr>"] assms by simp
next
  case (Timeout k t)
  with assms have "length [] \<le> (1::nat) \<and>
     map exec_id (executions (step w ev)) = take 50 ([] @ map exec_id (executions w))"
    by (simp add: fire_timer_executions)
  then show ?thesis ..
qed

lemma generated_op_not_delete: "db_op (fst (generateDataOperation ag w)) \<noteq> DELETE"
  by (simp add: generateDataOperation_eq operation_of_rand_def)

lemma no_delete_insert:
  "db_op x \<noteq> DELETE \<Longrightarrow> no_delete L \<Longrightarrow> no_delete (insert_dataOp x L)"
  by (auto simp: no_delete_def insert_dataOp_def dest: in_set_takeD)

lemma emit_dataOp_no_delete:
  "no_delete (dataOps w) \<Longrightarrow> no_delete (dataOps (emit_dataOp ag w))"
  by (simp add: emit_dataOp_eq no_delete_insert generated_op_not_delete)

lemma update_execution_no_delete:
  "no_delete (dataOps w) \<Longrightarrow> no_delete (dataOps (snd (update_execution e w)))"
  by (simp add: update_execution_def stop_or_complete_frame work_step_eq emit_dataOp_no_delete)

lemma update_all_no_delete:
  "no_delete (dataOps w) \<Longrightarrow> no_delete (dataOps (snd (update_all es w)))"
  by (induction es arbitrary: w)
     (simp_all add: update_all_Cons update_execution_no_delete del: update_all.simps(2))

lemma step_no_delete: "no_delete (dataOps w) \<Longrightarrow> no_delete (dataOps (step w ev))"
proof (cases ev)
  case (Tick t)
  assume "no_delete (dataOps w)"
  then have "no_delete (dataOps (spawn (w\<lparr>now := t\<rparr>)))"
    by (simp add: spawn_frame)
  then show ?thesis
    by (simp add: Tick tick_def advance_eq update_all_no_delete)
next
  case (Timeout k t)
  assume "no_delete (dataOps w)"
  then show ?thesis
    by (simp add: Timeout fire_timer_def emit_dataOp_no_delete)
qed

lemma run_no_delete: "no_delete (dataOps w) \<Longrightarrow> no_delete (dataOps (run w evs))"
  by (induction evs rule: rev_induct) (simp_all add: run_snoc step_no_delete, simp add: run_def)

lemma seed_dataOp_entry_op:
  "db_op (fst (seed_dataOp_entry i w)) = operation_of_rand (rng w !! 2)"
  by (simp add: seed_dataOp_entry_def Math_random_def Let_def eval_nat_numeral)

lemma initial_no_delete: "no_delete (dataOps (initial_dashboard g t))"
proof -
  have "no_delete (fst (seed_dataOps v))" for v :: dashboard
  proof -
    have "list_all (\<lambda>x. db_op x \<noteq> DELETE) (fst (seed_loop 20 11 seed_dataOp_entry 0 [] v))"
      by (rule seed_loop_set) (simp_all add: seed_dataOp_entry_op operation_of_rand_def)
    then show ?thesis
      by (force simp: seed_dataOps_def split_def Let_def list_all_iff no_delete_def)
  qed
  then show ?thesis
    by (simp add: initial_dashboard_def split_def Let_def)
qed

lemma Math_random_always:
  "rng w = always c \<Longrightarrow> fst (Math_random w) = c \<and> rng (snd (Math_random w)) = always c"
  by (simp add: Math_random_def)

lemma generateAlert_always:
  "rng w = always c \<Longrightarrow> rng (snd (generateAlert ag w)) = always c"
  by (simp add: generateAlert_eq)

lemma seed_entries_always:
  assumes "rng w = always c"
  shows "rng (snd (seed_running_entry i w)) = always c"
    and "rng (snd (seed_completed_entry i w)) = always c"
    and "rng (snd (seed_stopped_entry i w)) = always c"
    and "rng (snd (seed_dataOp_entry i w)) = always c"
    and "rng (snd (seed_alert_entry i w)) = always c"
  using assms
  by (simp_all add: seed_running_entry_def seed_completed_entry_def seed_stopped_entry_def
        seed_dataOp_entry_def seed_alert_entry_def Math_random_def Let_def split_def
        generateAlert_eq)

lemma seed_loop_always:
  "(\<And>j v. rng v = always c \<Longrightarrow> rng (snd (body j v)) = always c) \<Longrightarrow> rng w = always c \<Longrightarrow>
   rng (snd (seed_loop lo width body i acc w)) = always c"
proof (induction lo width body i acc w rule: seed_loop.induct)
  case (1 lo width body i acc w)
  have w1: "rng (snd (Math_random w)) = always c"
    using "1.prems"(2) by (simp add: Math_random_def)
  show ?case
  proof (cases "int i < int lo + floor_scaled (fst (Math_random w)) (real width)")
    case True
    have "rng (snd (body i (snd (Math_random w)))) = always c"
      using w1 by (rule "1.prems"(1))
    then have "rng (snd (seed_loop lo width body (Suc i)
        (acc @ [fst (body i (snd (Math_random w)))]) (snd (body i (snd (Math_random w)))))) = always c"
      using "1.prems"(1) by (intro "1.IH" [OF True])
    then show ?thesis
      using True by (subst seed_loop.simps) simp
  next
    case False
    with w1 show ?thesis
      by (subst seed_loop.simps) simp
  qed
qed

lemma initial_dashboard_always: "rng (initial_dashboard (always c) t) = always c"
proof -
  let ?w0 = "\<lparr> rng = always c, now = t, executions = [], dataOps = [], alerts = [], timers = [] \<rparr>"
  have 0: "rng ?w0 = always c"
    by simp
  have 1: "rng (snd (seed_executions ?w0)) = always c"
    unfolding seed_executions_def split_def Let_def snd_conv
    by (intro seed_loop_always seed_entries_always 0)
  have 2: "rng (snd (seed_dataOps (snd (seed_executions ?w0)))) = always c"
    unfolding seed_dataOps_def split_def Let_def snd_conv
    by (intro seed_loop_always seed_entries_always 1)
  have 3: "rng (snd (seed_alerts (snd (seed_dataOps (snd (seed_executions ?w0)))))) = always c"
    unfolding seed_alerts_def split_def Let_def snd_conv
    by (intro seed_loop_always seed_entries_always 2)
  show ?thesis
    using 3 by (simp add: initial_dashboard_def split_def Let_def)
qed

lemma update_execution_all_low:
  assumes "rng w = always c" "draw_val c < 2 / 100"
  shows "status (fst (update_execution e w)) \<noteq> Running \<and>
         rng (snd (update_execution e w)) = always c"
proof (cases "status e = Running")
  case True
  have ws: "rng (work_step e w) = always c"
    using assms by (simp add: work_step_eq emit_dataOp_eq)
  then have "draw_val (shd (rng (work_step e w))) < 2 / 100"
    using assms by simp
  then show ?thesis
    using True ws by (simp add: update_execution_def stop_or_complete_stop emit_alert_eq
        generateAlert_eq)
next
  case False
  with assms show ?thesis
    by (simp add: update_execution_def)
qed

lemma update_all_all_low:
  "rng w = always c \<Longrightarrow> draw_val c < 2 / 100 \<Longrightarrow>
   Running \<notin> status ` set (fst (update_all es w)) \<and> rng (snd (update_all es w)) = always c"
proof (induction es arbitrary: w)
  case Nil
  then show ?case by simp
next
  case (Cons e es)
  note u = update_execution_all_low [OF Cons.prems, of e]
  from u Cons.IH [of "snd (update_execution e w)"] Cons.prems(2) show ?case
    by (auto simp: update_all_Cons simp del: update_all.simps)
qed

lemma tick_all_low:
  assumes "rng w = always c" "draw_val c < 2 / 100"
  shows "runningCount (executions (tick w)) = 0 \<and> rng (tick w) = always c"
proof -
  have "rng (spawn w) = always c"
    using assms(1) by (simp add: spawn_eq add_execution_eq)
  from update_all_all_low [OF this assms(2), of "executions (spawn w)"] show ?thesis
    by (force simp: tick_def advance_eq runningCount_def filter_empty_conv image_iff)
qed

lemma optimization_question:
  "isPricingOptimizationQuestion PricingAgent ''Can you optimize our pricing strategy?''"
  by (simp add: isPricingOptimizationQuestion_def toLowerCase_def lower_char_def)

lemma optimization_question_trim:
  "trim ''Can you optimize our pricing strategy?'' \<noteq> []"
  by (simp add: trim_def is_space_def)

lemma handleSendMessage_optimization:
  assumes "agentType s = PricingAgent"
    and "inputMessage s = ''Can you optimize our pricing strategy?''"
  shows "handleSendMessage s =
     s\<lparr>messages := messages s @
          [\<lparr> msg_id = Stamp (now s), msg_type = User,
             msg_content = Typed ''Can you optimize our pricing strategy?'',
             msg_timestamp = now s, msg_agentName = None, msg_status = Some Msg_sent,
             msg_metadata = None \<rparr>],
       inputMessage := [], isTyping := True,
       typingMessage := ''Optimizing pricing strategy...'',
       pending := pending s @ [(2000, Optimization_reply ''Can you optimize our pricing strategy?'')]\<rparr>"
  using assms optimization_question optimization_question_trim
  by (simp add: handleSendMessage_def set_timeout_def Let_def)

lemma handlePricingOptimization_calls_once:
  "count_list (snd (handlePricingOptimization msg ty outcome)) Optimize_pricing_call = 1"
  by (simp add: handlePricingOptimization_def Let_def
        split: pricing_outcome.split option.split number_field.split)

lemma handlePricingOptimization_resolved:
  assumes "resolves_well outcome"
  shows "snd (handlePricingOptimization msg ty outcome) =
     [Optimize_pricing_call, Invalidate_queries ''products'',
      Invalidate_queries ''featured-products''] \<and>
   category (snd (fst (handlePricingOptimization msg ty outcome))) = ''pricing_optimization'' \<and>
   ''price_updates'' \<in> set (actions (snd (fst (handlePricingOptimization msg ty outcome)))) \<and>
   optimization_applied (snd (fst (handlePricingOptimization msg ty outcome))) = Some True"
proof (cases outcome)
  case Rejected
  with assms show ?thesis
    by (simp add: resolves_well_def)
next
  case (Resolved r)
  show ?thesis
  proof (cases r)
    case None
    with Resolved show ?thesis
      by (simp add: handlePricingOptimization_def optimization_done_def)
  next
    case (Some d)
    with Resolved assms have "average_increase_percent d \<noteq> Non_number"
      by (simp add: resolves_well_def)
    with Resolved Some show ?thesis
      by (cases "average_increase_percent d")
         (simp_all add: handlePricingOptimization_def optimization_done_def Let_def)
  qed
qed

lemma handlePricingOptimization_rejected:
  "handlePricingOptimization msg ty Rejected =
     (optimization_failed, [Optimize_pricing_call, Console_error])"
  by (simp add: handlePricingOptimization_def)

lemma fire_last_pending:
  "fire_pending (length ps) outcome (s\<lparr>pending := ps @ [(d, cb)]\<rparr>) =
     run_callback cb outcome (s\<lparr>pending := ps\<rparr>)"
  by (simp add: fire_pending_def)

lemma run_optimization_reply:
  "run_callback (Optimization_reply msg) outcome s =
     s\<lparr>effects := effects s @ snd (handlePricingOptimization msg (agentType s) outcome),
       messages := messages s @
         [\<lparr> msg_id = Stamp (now s + 1), msg_type = Agent,
            msg_content = fst (fst (handlePricingOptimization msg (agentType s) outcome)),
            msg_timestamp = now s, msg_agentName = Some (chat_agentName s),
            msg_status = Some Msg_completed,
            msg_metadata = Some (snd (fst (handlePricingOptimization msg (agentType s) outcome))) \<rparr>],
       isTyping := False, typingMessage := ''Agent is thinking...''\<rparr>"
  by (simp add: split_def reply_def agentMessage_def Let_def)

lemma handleSendMessage_ignores_isTyping:
  "trim (inputMessage s) \<noteq> [] \<Longrightarrow>
   length (messages (handleSendMessage s)) = length (messages s) + 1 \<and>
   length (pending (handleSendMessage s)) = length (pending s) + 1"
  by (simp add: handleSendMessage_def set_timeout_def Let_def split_def Math_random_def)

section \<open>The claims\<close>

text \<open>
  Claim C1. In a chat with the pricing agent in which no response is pending, the user
  sends the message "Can you optimize our pricing strategy?". The send registers the
  optimization callback (2 seconds) and does nothing to the outside yet. When that
  callback runs, the pricing service is called exactly once, however the call ends, and
  the session gets one agent message after the user message. When the call resolves,
  the call is followed by the invalidation of \<^verbatim>\<open>products\<close> and then of
  \<^verbatim>\<open>featured-products\<close>, and nothing else; the metadata of the agent message has the
  category \<^verbatim>\<open>pricing_optimization\<close> and its actions contain \<^verbatim>\<open>price_updates\<close>.
  (What happens when the call rejects is claim C2.)
\<close>

theorem C1_pricing_optimization_request:
  assumes "agentType s = PricingAgent"
    and "inputMessage s = ''Can you optimize our pricing strategy?''"
    and "\<not> isTyping s"
  shows "let sent = ui Send_button s;
             answered = fire_pending (length (pending s)) outcome sent
         in pending sent = pending s @ [(2000, Optimization_reply ''Can you optimize our pricing strategy?'')] \<and>
            effects sent = effects s \<and>
            count_list (effects answered) Optimize_pricing_call =
              count_list (effects s) Optimize_pricing_call + 1 \<and>
            pending answered = pending s \<and>
            length (messages answered) = length (messages s) + 2 \<and>
            msg_type (last (messages answered)) = Agent \<and>
            (resolves_well outcome \<longrightarrow>
               effects answered =
                 effects s @ [Optimize_pricing_call, Invalidate_queries ''products'',
                              Invalidate_queries ''featured-products''] \<and>
               map_option category (msg_metadata (last (messages answered))) =
                 Some ''pricing_optimization'' \<and>
               ''price_updates'' \<in>
                 set (case msg_metadata (last (messages answered)) of
                        None \<Rightarrow> [] | Some m \<Rightarrow> actions m))"
proof -
  let ?msg = "''Can you optimize our pricing strategy?''"
  have sent: "ui Send_button s = handleSendMessage s"
    using assms optimization_question_trim by simp
  note h = handleSendMessage_optimization [OF assms(1,2)]
  have fired: "fire_pending (length (pending s)) outcome (handleSendMessage s) =
      run_callback (Optimization_reply ?msg) outcome
        ((handleSendMessage s)\<lparr>pending := pending s\<rparr>)"
    by (subst (1) h) (simp add: fire_pending_def h)
  have ty: "agentType ((handleSendMessage s)\<lparr>pending := pending s\<rparr>) = PricingAgent"
    by (simp add: h assms)
  show ?thesis
    unfolding Let_def sent fired run_optimization_reply ty
    using handlePricingOptimization_calls_once [of ?msg PricingAgent outcome]
      handlePricingOptimization_resolved [of outcome ?msg PricingAgent]
    by (simp add: h)
qed

text \<open>
  Witness for C1: a new chat with the pricing agent, the message put into the input by
  the quick action, and a call that resolves with 7 products and 3.1 percent.
\<close>

theorem C1_pricing_optimization_request_witness:
  "agentType (ui (Quick_action 1) pricing_chat) = PricingAgent \<and>
   inputMessage (ui (Quick_action 1) pricing_chat) = ''Can you optimize our pricing strategy?'' \<and>
   \<not> isTyping (ui (Quick_action 1) pricing_chat) \<and>
   resolves_well (Resolved (Some \<lparr>total_products_updated = Some 7,
                                   average_increase_percent = Number (31 / 10)\<rparr>)) \<and>
   effects (fire_pending 0
     (Resolved (Some \<lparr>total_products_updated = Some 7, average_increase_percent = Number (31 / 10)\<rparr>))
     (ui Send_button (ui (Quick_action 1) pricing_chat))) =
     [Optimize_pricing_call, Invalidate_queries ''products'', Invalidate_queries ''featured-products'']"
proof -
  define s where "s = ui (Quick_action 1) pricing_chat"
  define out where "out = Resolved (Some \<lparr>total_products_updated = Some 7,
                                   average_increase_percent = Number (31 / 10)\<rparr>)"
  have h1: "agentType s = PricingAgent"
    and h2: "inputMessage s = ''Can you optimize our pricing strategy?''"
    and h3: "\<not> isTyping s"
    and p: "pending s = []" and e: "effects s = []"
    by (simp_all add: s_def pricing_chat_def initial_chat_def)
  have h4: "resolves_well out"
    by (simp add: resolves_well_def out_def)
  from C1_pricing_optimization_request [OF h1 h2 h3, of out] h4
  have "effects (fire_pending 0 out (ui Send_button s)) =
     [Optimize_pricing_call, Invalidate_queries ''products'', Invalidate_queries ''featured-products'']"
    by (simp add: Let_def p e del: ui.simps)
  with h1 h2 h3 h4 show ?thesis
    unfolding s_def out_def by blast
qed

text \<open>
  Claim C2. When the call to the pricing service made by the optimization callback
  rejects, the session gets an ordinary agent message (status \<^verbatim>\<open>completed\<close>) with the
  text of the \<^verbatim>\<open>catch\<close> block, whose metadata has \<^verbatim>\<open>optimization_applied\<close> false and
  the category \<^verbatim>\<open>pricing_analysis\<close>. The only effects are the one call and the
  \<^verbatim>\<open>console.error\<close>: no query is invalidated, the call is not made again, and no
  timeout is registered that would make it again. The response is no longer pending.
\<close>

theorem C2_pricing_service_rejects:
  "let s' = run_callback (Optimization_reply msg) Rejected s
   in messages s' = messages s @ [agentMessage s optimization_failed] \<and>
      msg_type (last (messages s')) = Agent \<and>
      msg_status (last (messages s')) = Some Msg_completed \<and>
      msg_content (last (messages s')) = Optimization_unavailable \<and>
      map_option optimization_applied (msg_metadata (last (messages s'))) = Some (Some False) \<and>
      map_option category (msg_metadata (last (messages s'))) = Some ''pricing_analysis'' \<and>
      effects s' = effects s @ [Optimize_pricing_call, Console_error] \<and>
      Invalidate_queries ''products'' \<notin> set [Optimize_pricing_call, Console_error] \<and>
      Invalidate_queries ''featured-products'' \<notin> set [Optimize_pricing_call, Console_error] \<and>
      count_list (effects s') Optimize_pricing_call = count_list (effects s) Optimize_pricing_call + 1 \<and>
      pending s' = pending s \<and>
      \<not> isTyping s'"
  by (simp add: run_optimization_reply handlePricingOptimization_rejected Let_def
        optimization_failed_def agentMessage_def del: run_callback.simps)

text \<open>
  Claim C3. Let \<open>w\<close> be any state that the dashboard reaches from its initial state by
  interval ticks and timeouts. The executions ledger of \<open>w\<close> holds at most 50 entries,
  the data operations ledger at most 100 and the alerts ledger at most 15. Each of the
  three insertions puts the new entry first and keeps the order of the others; it drops
  the last (oldest) entry exactly when the ledger is at capacity, and nothing otherwise.
  After any sequence of insertions the ledger is the most recent entries, latest first,
  cut at the capacity. So it is in the runs of the scheduler: after any further events,
  the data operations ledger is the operations inserted by these events (what they
  leave in a ledger that was empty), followed by the ledger of \<open>w\<close>, cut at 100, and
  likewise the alerts ledger, cut at 15; an event puts at most one new execution in
  front of the executions of \<open>w\<close>, which keep their order and are cut at 50.
\<close>

theorem C3_ledgers_within_capacity:
  "let w = run (initial_dashboard g t) evs
   in length (executions w) \<le> 50 \<and> length (dataOps w) \<le> 100 \<and> length (alerts w) \<le> 15 \<and>
      length (insert_execution e (executions w)) \<le> 50 \<and>
      length (insert_dataOp x (dataOps w)) \<le> 100 \<and>
      length (insert_alert a (alerts w)) \<le> 15 \<and>
      insert_execution e (executions w) = take 50 (e # executions w) \<and>
      insert_dataOp x (dataOps w) = take 100 (x # dataOps w) \<and>
      insert_alert a (alerts w) = take 15 (a # alerts w) \<and>
      insert_execution e (executions w) =
        e # (if length (executions w) = 50 then butlast (executions w) else executions w) \<and>
      insert_dataOp x (dataOps w) =
        x # (if length (dataOps w) = 100 then butlast (dataOps w) else dataOps w) \<and>
      insert_alert a (alerts w) =
        a # (if length (alerts w) = 15 then butlast (alerts w) else alerts w) \<and>
      foldl (\<lambda>L y. insert_execution y L) (executions w) es = take 50 (rev es @ executions w) \<and>
      foldl (\<lambda>L y. insert_dataOp y L) (dataOps w) xs = take 100 (rev xs @ dataOps w) \<and>
      foldl (\<lambda>L y. insert_alert y L) (alerts w) as = take 15 (rev as @ alerts w) \<and>
      dataOps (run w evs') = take 100 (dataOps (run (w\<lparr>dataOps := []\<rparr>) evs') @ dataOps w) \<and>
      alerts (run w evs') = take 15 (alerts (run (w\<lparr>alerts := []\<rparr>) evs') @ alerts w) \<and>
      (\<exists>new. length new \<le> 1 \<and>
         map exec_id (executions (step w ev)) = take 50 (new @ map exec_id (executions w)))"
proof -
  define w where "w = run (initial_dashboard g t) evs"
  have cap: "length (executions w) \<le> 50" "length (dataOps w) \<le> 100" "length (alerts w) \<le> 15"
    using run_within_capacity [OF initial_within_capacity, of g t evs]
    by (simp_all add: within_capacity_def w_def)
  have len: "length (insert_execution e (executions w)) \<le> 50"
    "length (insert_dataOp x (dataOps w)) \<le> 100"
    "length (insert_alert a (alerts w)) \<le> 15"
    by (rule length_insert_execution length_insert_dataOp length_insert_alert)+
  have ins: "insert_execution e (executions w) =
        e # (if length (executions w) = 50 then butlast (executions w) else executions w)"
    "insert_dataOp x (dataOps w) =
        x # (if length (dataOps w) = 100 then butlast (dataOps w) else dataOps w)"
    "insert_alert a (alerts w) =
        a # (if length (alerts w) = 15 then butlast (alerts w) else alerts w)"
    using cap by (simp_all add: insert_execution_def insert_dataOp_def insert_alert_def butlast_conv_take)
  have seq: "foldl (\<lambda>L y. insert_execution y L) (executions w) es = take 50 (rev es @ executions w)"
    "foldl (\<lambda>L y. insert_dataOp y L) (dataOps w) xs = take 100 (rev xs @ dataOps w)"
    "foldl (\<lambda>L y. insert_alert y L) (alerts w) as = take 15 (rev as @ alerts w)"
    using cap foldl_insert_take [of 50 "executions w" es] foldl_insert_take [of 100 "dataOps w" xs]
      foldl_insert_take [of 15 "alerts w" as]
    by (simp_all add: insert_as_take)
  note recent = run_dataOps_most_recent [OF cap(2), of evs'] run_alerts_most_recent [OF cap(3), of evs']
    step_ids [OF cap(1), of ev]
  show ?thesis
    unfolding Let_def w_def [symmetric]
    using cap len ins seq recent insert_as_take(1) [of e "executions w"]
      insert_as_take(2) [of x "dataOps w"] insert_as_take(3) [of a "alerts w"]
    by blast
qed

text \<open>
  Claim C4. For a running execution, when the forced-stop draw of a tick (the draw
  that follows the work step) is below 0.02, the execution is stopped in that tick and
  not completed, whatever its duration, hence also when the duration exceeds every
  possible completion threshold: the completion check is not reached. One alert for the
  agent of the execution is inserted at the front of the alerts, and no final data
  operation is scheduled.
\<close>

theorem C4_forced_stop_precedes_completion:
  assumes "status e = Running"
    and "draw_val (shd (rng (work_step e w))) < 2 / 100"
  shows "status (fst (update_execution e w)) = Stopped \<and>
         status (fst (update_execution e w)) \<noteq> Completed \<and>
         duration (fst (update_execution e w)) = duration e + 2 \<and>
         alerts (snd (update_execution e w)) =
           insert_alert
             (fst (generateAlert (agentName e) ((work_step e w)\<lparr>rng := stl (rng (work_step e w))\<rparr>)))
             (alerts w) \<and>
         alert_agentName (hd (alerts (snd (update_execution e w)))) = agentName e \<and>
         timers (snd (update_execution e w)) = timers w"
  using assms
  by (simp add: update_execution_def stop_or_complete_stop emit_alert_eq work_step_frame
        insert_alert_def generateAlert_eq alert_of_type_def)

text \<open>
  Witness for C4: an execution of duration 100, which is above every completion
  threshold, under draws that are all 0.01.
\<close>

theorem C4_forced_stop_precedes_completion_witness:
  "status (sample_execution\<lparr>duration := 100\<rparr>) = Running \<and>
   draw_val (shd (rng (work_step (sample_execution\<lparr>duration := 100\<rparr>)
      (quiet (always (draw_of 1 100)))))) < 2 / 100 \<and>
   status (fst (update_execution (sample_execution\<lparr>duration := 100\<rparr>)
      (quiet (always (draw_of 1 100))))) = Stopped"
proof -
  have h1: "status (sample_execution\<lparr>duration := 100\<rparr>) = Running"
    by (simp add: sample_execution_def)
  have h2: "draw_val (shd (rng (work_step (sample_execution\<lparr>duration := 100\<rparr>)
      (quiet (always (draw_of 1 100)))))) < 2 / 100"
    by (simp add: work_step_eq emit_dataOp_eq quiet_def draw_of.rep_eq)
  from C4_forced_stop_precedes_completion [OF h1 h2] h1 h2 show ?thesis
    by simp
qed

text \<open>
  Claim C5. The operation of a generated data operation is SELECT when the draw is
  below 0.9, INSERT when it is at least 0.9 and below 0.95, UPDATE otherwise, and never
  DELETE; the draw used is the second one that \<^verbatim>\<open>generateDataOperation\<close> takes (the
  third one for a data operation of the initial state). No data operation in any state
  reached from the initial dashboard is a DELETE. The draws that give SELECT are exactly
  the interval from 0 to 0.9, which is nine tenths of the interval from 0 to 1 of all
  draws.
\<close>

theorem C5_operation_of_draw:
  "(operation_of_rand r = SELECT \<longleftrightarrow> draw_val r < 9 / 10) \<and>
   (operation_of_rand r = INSERT \<longleftrightarrow> 9 / 10 \<le> draw_val r \<and> draw_val r < 95 / 100) \<and>
   (operation_of_rand r = UPDATE \<longleftrightarrow> 95 / 100 \<le> draw_val r) \<and>
   operation_of_rand r \<noteq> DELETE \<and>
   db_op (fst (generateDataOperation ag w)) = operation_of_rand (rng w !! 1) \<and>
   db_op (fst (generateDataOperation ag w)) \<in> {SELECT, INSERT, UPDATE} \<and>
   db_op (fst (seed_dataOp_entry i w)) = operation_of_rand (rng w !! 2) \<and>
   DELETE \<notin> db_op ` set (dataOps (run (initial_dashboard g t) evs)) \<and>
   {x. \<exists>d. draw_val d = x \<and> operation_of_rand d = SELECT} = {0 ..< 9 / 10}"
proof -
  have "operation_of_rand d \<in> {SELECT, INSERT, UPDATE}" for d
    by (simp add: operation_of_rand_def)
  moreover have "DELETE \<notin> db_op ` set (dataOps (run (initial_dashboard g t) evs))"
    using run_no_delete [OF initial_no_delete, of g t evs] by (simp add: no_delete_def)
  ultimately show ?thesis
    using operation_of_rand_cases [of r] select_draws seed_dataOp_entry_op [of i w]
    by (simp add: generateDataOperation_eq)
qed

text \<open>
  Claim C6. An alert made by \<^verbatim>\<open>generateAlert\<close> has at most one of the metrics
  \<open>confidenceScore\<close>, \<open>accuracy\<close>, \<open>dataQuality\<close>; which one is fixed by its archetype
  (identified by \<open>reason\<close>); a metric that is present is an integer in the range of its
  archetype. The archetype is the confidence-score one exactly when the fourth draw is
  below 0.7; otherwise it is the archetype number \<open>j + 1\<close>, where \<open>j\<close> is the fifth of the
  unit interval that the next draw \<open>k\<close> falls into, so the other five archetypes have
  draw intervals of the same length.
\<close>

theorem C6_alert_metric_by_archetype:
  "let al = fst (generateAlert name w);
       sel = rng w !! 3;
       k = rng w !! 4;
       j = nat (floor_scaled k 5)
   in length (filter (\<lambda>m. m \<noteq> None)
        [confidenceScore (details al), accuracy (details al), dataQuality (details al)]) \<le> 1 \<and>
      confidenceScore (details al) \<in> insert None (Some ` {45..75}) \<and>
      dataQuality (details al) \<in> insert None (Some ` {60..85}) \<and>
      accuracy (details al) \<in> insert None (Some ` {75..90}) \<and>
      (confidenceScore (details al) \<noteq> None \<longleftrightarrow> reason al = ''Low confidence score detected'') \<and>
      (dataQuality (details al) \<noteq> None \<longleftrightarrow> reason al = ''Data quality degradation'') \<and>
      (accuracy (details al) \<noteq> None \<longleftrightarrow> reason al = ''Model accuracy drift detected'') \<and>
      (reason al = ''Low confidence score detected'' \<longleftrightarrow> draw_val sel < 7 / 10) \<and>
      reason al = alert_reasons ! (if draw_val sel < 7 / 10 then 0 else j + 1) \<and>
      j < 5 \<and> real j / 5 \<le> draw_val k \<and> draw_val k < (real j + 1) / 5"
proof -
  define c q a where "c = rng w !! 0" and "q = rng w !! 1" and "a = rng w !! 2"
  define j where "j = nat (floor_scaled (rng w !! 4) 5)"
  define n where "n = (if draw_val (rng w !! 3) < 7 / 10 then 0 else j + 1)"
  obtain i ts where al: "fst (generateAlert name w) = alert_of_type name (alertTypes c q a ! n) i ts"
    using generateAlert_type [of name w] unfolding c_def q_def a_def j_def n_def by blast
  have j: "j < 5" "real j / 5 \<le> draw_val (rng w !! 4)" "draw_val (rng w !! 4) < (real j + 1) / 5"
    using fifth_of_draw [of "rng w !! 4"] unfolding j_def by simp_all
  have n: "n \<le> 5" and n0: "n = 0 \<longleftrightarrow> draw_val (rng w !! 3) < 7 / 10"
    using j(1) by (simp_all add: n_def)
  have m: "floor_scaled c 30 + 45 \<in> {45..75}" "floor_scaled q 25 + 60 \<in> {60..85}"
    "floor_scaled a 15 + 75 \<in> {75..90}"
    using metric_ranges(1) [of c] metric_ranges(2) [of q] metric_ranges(3) [of a] by simp_all
  note t = alertTypes_nth [OF n, of c q a]
  note r = alert_reasons_nth [OF n]
  have 1: "length (filter (\<lambda>m. m \<noteq> None)
        [at_confidenceScore (alertTypes c q a ! n), at_accuracy (alertTypes c q a ! n),
         at_dataQuality (alertTypes c q a ! n)]) \<le> 1"
    by (simp add: t)
  have 2: "at_confidenceScore (alertTypes c q a ! n) \<in> insert None (Some ` {45..75})"
    "at_dataQuality (alertTypes c q a ! n) \<in> insert None (Some ` {60..85})"
    "at_accuracy (alertTypes c q a ! n) \<in> insert None (Some ` {75..90})"
    using m by (simp_all add: t)
  have 3: "at_confidenceScore (alertTypes c q a ! n) \<noteq> None \<longleftrightarrow>
             at_reason (alertTypes c q a ! n) = ''Low confidence score detected''"
    "at_dataQuality (alertTypes c q a ! n) \<noteq> None \<longleftrightarrow>
             at_reason (alertTypes c q a ! n) = ''Data quality degradation''"
    "at_accuracy (alertTypes c q a ! n) \<noteq> None \<longleftrightarrow>
             at_reason (alertTypes c q a ! n) = ''Model accuracy drift detected''"
    by (simp_all add: t r)
  have 4: "at_reason (alertTypes c q a ! n) = ''Low confidence score detected'' \<longleftrightarrow>
             draw_val (rng w !! 3) < 7 / 10"
    by (simp add: t(1) r(1) n0)
  show ?thesis
    unfolding Let_def j_def [symmetric] al alert_of_type_fields n_def [symmetric]
    using 1 2 3 4 t(1) j by blast
qed

text \<open>
  Claim C7 (evaluation of the code where the claim fails). All draws are 0.01, so every
  forced-stop check succeeds. The dashboard is seeded and the interval fires: every
  running execution is stopped, and none is running at the start of the second tick.
  The second tick spawns one execution and the update of the same tick stops it: none
  is running after that tick either. The same happens from a dashboard that has no
  execution at all: after the tick its only execution is stopped.
\<close>

theorem C7_tick_from_zero_running_can_end_with_none:
  "runningCount (executions (step (initial_dashboard (always (draw_of 1 100)) 0) (Tick 2000))) = 0 \<and>
   runningCount (executions (step (step (initial_dashboard (always (draw_of 1 100)) 0) (Tick 2000))
      (Tick 4000))) = 0 \<and>
   runningCount (executions (quiet (always (draw_of 1 100)))) = 0 \<and>
   map status (executions (tick (quiet (always (draw_of 1 100))))) = [Stopped] \<and>
   runningCount (executions (tick (quiet (always (draw_of 1 100))))) = 0"
proof -
  let ?c = "draw_of 1 100"
  have c: "draw_val ?c < 2 / 100"
    by (simp add: draw_of.rep_eq)
  let ?w0 = "initial_dashboard (always ?c) 0"
  have "rng (?w0\<lparr>now := 2000\<rparr>) = always ?c"
    by (simp add: initial_dashboard_always)
  from tick_all_low [OF this c]
  have 1: "runningCount (executions (step ?w0 (Tick 2000))) = 0"
    and r1: "rng (step ?w0 (Tick 2000)) = always ?c"
    by simp_all
  from r1 have "rng ((step ?w0 (Tick 2000))\<lparr>now := 4000\<rparr>) = always ?c"
    by simp
  from tick_all_low [OF this c]
  have 2: "runningCount (executions (step (step ?w0 (Tick 2000)) (Tick 4000))) = 0"
    by simp
  have 3: "runningCount (executions (quiet (always ?c))) = 0 \<and>
   map status (executions (tick (quiet (always ?c)))) = [Stopped] \<and>
   runningCount (executions (tick (quiet (always ?c)))) = 0"
    by (simp add: quiet_def tick_def advance_eq spawn_eq add_execution_eq runningCount_def
        insert_execution_def generateExecution_eq update_execution_def work_step_eq
        emit_dataOp_eq stop_or_complete_stop draw_of.rep_eq Let_def split_def)
  from 1 2 3 show ?thesis
    by blast
qed

text \<open>
  Claim C8 (counterexample). One and the same running execution, as spawned by
  \<^verbatim>\<open>generateExecution\<close> and with duration 2, is updated by a tick in two environments
  that differ only in the third draw of that tick: with the draw 0 it is completed, with
  the draw 0.5 it keeps running. So no threshold fixed when the execution was spawned
  decides the completion.
\<close>

theorem C8_counterexample:
  "sample_execution = (fst (generateExecution (quiet (always (draw_of 1 2)))))
      \<lparr>agentName := ''PricingAgent'', operation := ''Processing orders'', duration := 2,
        dataProcessed := 10000\<rparr> \<and>
   status (fst (update_execution sample_execution
      (quiet (draw_of 1 2 ## draw_of 1 2 ## draw_of 0 1 ## always (draw_of 1 2))))) = Completed \<and>
   status (fst (update_execution sample_execution
      (quiet (draw_of 1 2 ## draw_of 1 2 ## draw_of 1 2 ## always (draw_of 1 2))))) = Running"
  by (simp add: sample_execution_def quiet_def update_execution_def work_step_eq
        stop_or_complete_nostop draw_of.rep_eq generateExecution_eq)

text \<open>
  Claim C8 (as amended). A running execution that is not force-stopped in a tick is
  completed in that tick exactly when its new duration (the old one plus 2) exceeds
  3 + 12 r, where \<open>r\<close> is the draw taken in that same tick right after the forced-stop
  draw; otherwise it keeps running. The threshold so drawn lies between 3 and 15.
\<close>

theorem C8_threshold_drawn_at_each_tick:
  assumes "status e = Running"
    and "\<not> draw_val (shd (rng (work_step e w))) < 2 / 100"
  shows "(status (fst (update_execution e w)) = Completed \<longleftrightarrow>
            duration e + 2 > 3 + draw_val (rng (work_step e w) !! 1) * 12) \<and>
         (status (fst (update_execution e w)) = Running \<longleftrightarrow>
            \<not> duration e + 2 > 3 + draw_val (rng (work_step e w) !! 1) * 12) \<and>
         3 \<le> 3 + draw_val (rng (work_step e w) !! 1) * 12 \<and>
         3 + draw_val (rng (work_step e w) !! 1) * 12 < 15 \<and>
         duration (fst (update_execution e w)) = duration e + 2"
  using assms draw_val_bounds [of "rng (work_step e w) !! 1"]
  by (simp add: update_execution_def stop_or_complete_nostop)

text \<open>Witness for C8: an execution of duration 2 under draws that are all 0.5.\<close>

theorem C8_threshold_drawn_at_each_tick_witness:
  "status sample_execution = Running \<and>
   \<not> draw_val (shd (rng (work_step sample_execution (quiet (always (draw_of 1 2)))))) < 2 / 100 \<and>
   status (fst (update_execution sample_execution (quiet (always (draw_of 1 2))))) = Running"
proof -
  have h1: "status sample_execution = Running"
    by (simp add: sample_execution_def)
  have h2: "\<not> draw_val (shd (rng (work_step sample_execution (quiet (always (draw_of 1 2)))))) < 2 / 100"
    by (simp add: work_step_eq quiet_def draw_of.rep_eq)
  have "\<not> duration sample_execution + 2
          > 3 + draw_val (rng (work_step sample_execution (quiet (always (draw_of 1 2)))) !! 1) * 12"
    by (simp add: work_step_eq quiet_def draw_of.rep_eq sample_execution_def)
  with C8_threshold_drawn_at_each_tick [OF h1 h2] h1 h2 show ?thesis
    by simp
qed

text \<open>
  Claim C9. While a response is pending (\<^verbatim>\<open>isTyping\<close> is true), the send button and
  the Enter key leave the state of the chat as it is, whatever the input holds: both
  controls are disabled. No control appends a message, registers a callback, has an
  effect on the outside or ends the pending state; that is left to the callback of the
  pending response.
\<close>

theorem C9_no_send_while_pending:
  assumes "isTyping s"
  shows "ui Send_button s = s \<and> ui Enter_key s = s \<and>
         messages (ui c s) = messages s \<and> pending (ui c s) = pending s \<and>
         effects (ui c s) = effects s \<and> isTyping (ui c s)"
  using assms by (cases c) simp_all

text \<open>
  Witness for C9: after a first message is sent, a quick action puts a new text into
  the input while the response is pending; the send button then changes nothing.
\<close>

theorem C9_no_send_while_pending_witness:
  "isTyping (ui (Quick_action 0) (ui Send_button (ui (Quick_action 1) pricing_chat))) \<and>
   trim (inputMessage (ui (Quick_action 0) (ui Send_button (ui (Quick_action 1) pricing_chat)))) \<noteq> [] \<and>
   pending (ui (Quick_action 0) (ui Send_button (ui (Quick_action 1) pricing_chat))) \<noteq> [] \<and>
   ui Send_button (ui (Quick_action 0) (ui Send_button (ui (Quick_action 1) pricing_chat))) =
     ui (Quick_action 0) (ui Send_button (ui (Quick_action 1) pricing_chat))"
proof -
  define s1 where "s1 = ui (Quick_action 1) pricing_chat"
  define s2 where "s2 = ui Send_button s1"
  define s where "s = ui (Quick_action 0) s2"
  have a: "agentType s1 = PricingAgent"
    and b: "inputMessage s1 = ''Can you optimize our pricing strategy?''"
    and c: "\<not> isTyping s1"
    by (simp_all add: s1_def pricing_chat_def initial_chat_def)
  have "s2 = handleSendMessage s1"
    using b c optimization_question_trim by (simp add: s2_def)
  then have s2: "isTyping s2" "pending s2 \<noteq> []" "agentType s2 = PricingAgent"
    by (simp_all add: handleSendMessage_optimization [OF a b] a)
  have s: "s = s2\<lparr>inputMessage := ''How are market conditions affecting pricing?''\<rparr>"
    by (simp add: s_def s2)
  have h1: "isTyping s"
    by (simp add: s s2)
  have h2: "trim (inputMessage s) \<noteq> []"
    by (simp add: s trim_def is_space_def)
  have h3: "pending s \<noteq> []"
    by (simp add: s s2)
  from C9_no_send_while_pending [OF h1, of Send_button] have "ui Send_button s = s"
    by blast
  with h1 h2 h3 show ?thesis
    unfolding s_def s2_def s1_def by blast
qed

text \<open>
  Claim C10. \<^verbatim>\<open>generateExecution\<close> creates a running execution; the update of a tick
  leaves the status of an execution that is not running, and gives a running one the
  status running, completed or stopped; the initial executions are running, completed
  or stopped. Hence no execution of the initial dashboard, or of any state reached from
  it by ticks and timeouts, has the status failed.
\<close>

theorem C10_no_failed_execution:
  "status (fst (generateExecution v)) = Running \<and>
   status (fst (update_execution e w)) \<in>
     (if status e = Running then {Running, Completed, Stopped} else {status e}) \<and>
   status (fst (seed_running_entry i v)) = Running \<and>
   status (fst (seed_completed_entry i v)) = Completed \<and>
   status (fst (seed_stopped_entry i v)) = Stopped \<and>
   Failed \<notin> status ` set (executions (initial_dashboard g t)) \<and>
   Failed \<notin> status ` set (executions (run (initial_dashboard g t) evs))"
  using update_execution_status [of e w] run_no_failed [OF initial_no_failed, of g t evs]
    initial_no_failed [of g t]
  by (simp add: generateExecution_eq seed_entry_status)

end
